theory Spec2Isabelle
  imports Main "HOL-Library.Multiset"
begin

section \<open>Data model\<close>

text \<open>
  The hub keeps sessions in an in-memory cache (\<open>SessionCache\<close>) in front of a durable
  store. JavaScript values that the code inspects dynamically (\<open>typeof\<close>, truthiness) are
  modelled by a small value type; fields whose TypeScript type is \<open>string | undefined\<close>
  are \<open>string option\<close>.
\<close>

datatype jsval = JUndefined | JNull | JBool bool | JNum int | JStr string | JObj

text \<open>\<open>typeof v === 'string'\<close>.\<close>

fun is_string :: "jsval \<Rightarrow> bool" where
  "is_string (JStr _) = True"
| "is_string _ = False"

fun str_of :: "jsval \<Rightarrow> string" where
  "str_of (JStr s) = s"
| "str_of _ = []"

text \<open>JavaScript truthiness of an optional string: \<open>undefined\<close> and \<open>''\<close> are falsy.\<close>

fun truthy :: "string option \<Rightarrow> bool" where
  "truthy None = False"
| "truthy (Some s) = (s \<noteq> [])"

text \<open>The fields of a session's metadata blob that the engine reads.\<close>

record metadata =
  path :: jsval
  flavor :: "string option"
  claudeSessionId :: "string option"
  codexSessionId :: "string option"
  geminiSessionId :: "string option"
  opencodeSessionId :: "string option"

record session =
  sid :: string
  namespace :: string
  active :: bool
  metadata :: "metadata option"
  metadataVersion :: int

text \<open>
  Message content is opaque to the hub, except for the user messages it builds itself:
  \<open>{ role: 'user', content: { type: 'text', text, attachments }, meta: { sentFrom } }\<close>.
\<close>

record attachment =
  a_id :: string
  a_filename :: string
  a_mimeType :: string
  a_size :: nat
  a_path :: string
  a_previewUrl :: "string option"

datatype sent_from = TelegramBot | Webapp

datatype msg_content =
  UserText string "attachment list option" sent_from
| Opaque string

text \<open>A stored message of the ledger (\<open>StoredMessage\<close>); \<open>seq\<close> is a number.\<close>

record message =
  mid :: string
  seq :: int
  localId :: "string option"
  content :: msg_content
  createdAt :: int

text \<open>
  A sync event: its \<open>type\<close> tag, the optional explicit \<open>namespace\<close>, the \<open>sessionId\<close>
  (\<open>None\<close> when the variant has no such property) and, for \<open>message-received\<close>, the
  message.
\<close>

datatype event_kind = SessionUpdated | MessageReceived | Toast | OtherKind

record sync_event =
  ev_type :: event_kind
  ev_namespace :: "string option"
  ev_sessionId :: "string option"
  ev_message :: "message option"

text \<open>
  The state the engine works on: the cache's session map, the store's session table, the
  store's per-session message ledger (in the store's natural order) and the publisher's
  subscriber registry.
\<close>

record hub =
  cache :: "string \<rightharpoonup> session"
  store_sessions :: "string \<rightharpoonup> session"
  store_messages :: "string \<Rightarrow> message list"
  listeners :: "nat list"

section \<open>Session cache\<close>

text \<open>
  Modelled from the spec: \<open>SessionCache.getSession(id)\<close> (sessionCache.ts is not among the
  sources). Section 4.1: a cache lookup, \<open>undefined\<close> on a miss.
\<close>

definition cache_getSession :: "hub \<Rightarrow> string \<Rightarrow> session option" where
  "cache_getSession h i = cache h i"

text \<open>
  Modelled from the spec: \<open>SessionCache.refreshSession(id)\<close> (sessionCache.ts is not among
  the sources). Section 4.1: a re-read of the store, which heals a cache miss: what the
  store has is mirrored into the cache and returned; \<open>undefined\<close> if the store has nothing.
\<close>

definition refreshSession :: "hub \<Rightarrow> string \<Rightarrow> session option \<times> hub" where
  "refreshSession h i =
     (case store_sessions h i of
        None \<Rightarrow> (None, h)
      | Some s \<Rightarrow> (Some s, h\<lparr>cache := (cache h)(i \<mapsto> s)\<rparr>))"

datatype access_reason = NotFound | AccessDenied

datatype access_result = AccessOk string session | AccessFail access_reason

text \<open>
  Modelled from the spec: \<open>SessionCache.resolveSessionAccess(id, namespace)\<close>
  (sessionCache.ts is not among the sources). Section 4.1: it returns
  \<open>{ok:true, sessionId, session}\<close> or \<open>{ok:false, reason}\<close>; the reason is \<open>not-found\<close>
  when no session exists anywhere (neither in the cache nor, after a re-read, in the store)
  and \<open>access-denied\<close> when it exists in a different namespace.
\<close>

definition resolveSessionAccess :: "hub \<Rightarrow> string \<Rightarrow> string \<Rightarrow> access_result \<times> hub" where
  "resolveSessionAccess h i ns =
     (let (found, h') = (case cache_getSession h i of
                           Some s \<Rightarrow> (Some s, h)
                         | None \<Rightarrow> refreshSession h i)
      in case found of
           None \<Rightarrow> (AccessFail NotFound, h')
         | Some s \<Rightarrow>
             if namespace s \<noteq> ns then (AccessFail AccessDenied, h')
             else (AccessOk i s, h'))"

text \<open>The session a lookup of \<open>i\<close> finds: the cached one, else the stored one.\<close>

definition lookupSession :: "hub \<Rightarrow> string \<Rightarrow> session option" where
  "lookupSession h i = (case cache h i of Some s \<Rightarrow> Some s | None \<Rightarrow> store_sessions h i)"

section \<open>Sync engine: lookups, namespace resolution, event fan-out\<close>

text \<open>
  \<open>SyncEngine.getSession\<close>:
  \<open>sessionCache.getSession(id) ?? sessionCache.refreshSession(id) ?? undefined\<close>.
\<close>

definition getSession :: "hub \<Rightarrow> string \<Rightarrow> session option \<times> hub" where
  "getSession h i =
     (case cache_getSession h i of
        Some s \<Rightarrow> (Some s, h)
      | None \<Rightarrow> refreshSession h i)"

text \<open>
  \<open>SyncEngine.resolveNamespace\<close>. \<open>if (event.namespace)\<close> is a truthiness test, so an
  empty string counts as no namespace; \<open>'sessionId' in event\<close> is \<open>ev_sessionId \<noteq> None\<close>.
\<close>

definition resolveNamespace :: "hub \<Rightarrow> sync_event \<Rightarrow> string option \<times> hub" where
  "resolveNamespace h ev =
     (if truthy (ev_namespace ev) then (ev_namespace ev, h)
      else case ev_sessionId ev of
             Some i \<Rightarrow> (let (s, h') = getSession h i in (map_option namespace s, h'))
           | None \<Rightarrow> (None, h))"

text \<open>What a subscriber receives: the listener, the resolved namespace and the event.\<close>

record delivery =
  d_listener :: nat
  d_namespace :: string
  d_event :: sync_event

text \<open>
  Modelled from the spec: \<open>EventPublisher.emit\<close> (eventPublisher.ts) is not among the
  sources. Sections 3 and 4.3: it resolves the namespace with the resolver it was built
  with, drops an event whose namespace cannot be resolved, and otherwise invokes every
  subscriber with the event (a subscriber's exception does not stop the others).
\<close>

definition emit :: "hub \<Rightarrow> sync_event \<Rightarrow> delivery list \<times> hub" where
  "emit h ev =
     (let (ns, h') = resolveNamespace h ev
      in case ns of
           None \<Rightarrow> ([], h')
         | Some n \<Rightarrow>
             (map (\<lambda>l. \<lparr>d_listener = l, d_namespace = n, d_event = ev\<rparr>) (listeners h'), h'))"

text \<open>
  \<open>SyncEngine.handleRealtimeEvent\<close>, the \<open>onWebappEvent\<close> callback of the agent manager:
  a \<open>session-updated\<close> event with a truthy \<open>sessionId\<close> refreshes the cache and returns;
  a \<open>message-received\<close> one makes sure the session is cached; every other event, and the
  latter, is emitted.
\<close>

definition handleRealtimeEvent :: "hub \<Rightarrow> sync_event \<Rightarrow> delivery list \<times> hub" where
  "handleRealtimeEvent h ev =
     (let i = (case ev_sessionId ev of None \<Rightarrow> [] | Some j \<Rightarrow> j)
      in if ev_type ev = SessionUpdated \<and> truthy (ev_sessionId ev)
         then ([], snd (refreshSession h i))
         else
           (let h2 = (if ev_type ev = MessageReceived \<and> truthy (ev_sessionId ev)
                      then (let (s, h1) = getSession h i
                            in if s = None then snd (refreshSession h1 i) else h1)
                      else h)
            in emit h2 ev))"

section \<open>Versioned metadata updates\<close>

datatype update_result =
  UpdSuccess int "metadata option" | UpdMismatch int "metadata option" | UpdError

text \<open>
  Modelled from the spec: \<open>store.sessions.updateSessionMetadata(id, metadata,
  expectedVersion, namespace)\<close> (the store is not among the sources). Section 4.1: with
  \<open>expectedVersion\<close> omitted it writes unconditionally and bumps the version; with a
  matching one it applies and bumps; otherwise it returns \<open>version-mismatch\<close> with the
  current version and value and applies nothing. A session that is absent or of another
  namespace gives \<open>error\<close>.
\<close>

definition store_updateSessionMetadata ::
  "hub \<Rightarrow> string \<Rightarrow> metadata option \<Rightarrow> int option \<Rightarrow> string \<Rightarrow> update_result \<times> hub" where
  "store_updateSessionMetadata h i m expectedVersion ns =
     (case store_sessions h i of
        None \<Rightarrow> (UpdError, h)
      | Some s \<Rightarrow>
          if namespace s \<noteq> ns then (UpdError, h)
          else if expectedVersion = None \<or> expectedVersion = Some (metadataVersion s) then
            (UpdSuccess (metadataVersion s + 1) m,
             h\<lparr>store_sessions :=
                 (store_sessions h)(i \<mapsto> s\<lparr>metadata := m, metadataVersion := metadataVersion s + 1\<rparr>)\<rparr>)
          else (UpdMismatch (metadataVersion s) (metadata s), h))"

text \<open>The payload of an \<open>update-metadata\<close> request from the agent side.\<close>

record update_data =
  u_sid :: jsval
  u_metadata :: "metadata option"
  u_expectedVersion :: "int option"

datatype update_reply =
  ReplySuccess int "metadata option" | ReplyMismatch int "metadata option" | ReplyError

text \<open>
  The \<open>update-metadata\<close> handler of \<open>AgentManager.setupHandlers\<close>. It answers through
  \<open>cb\<close> (the reply) and, on success, calls \<open>onWebappEvent\<close> with a \<open>session-updated\<close>
  event; index.ts wires that callback to \<open>SyncEngine.handleRealtimeEvent\<close>.
\<close>

definition onUpdateMetadata :: "hub \<Rightarrow> update_data \<Rightarrow> update_reply \<times> delivery list \<times> hub" where
  "onUpdateMetadata h d =
     (if \<not> is_string (u_sid d) then (ReplyError, [], h)
      else
        let i = str_of (u_sid d) in
        case store_sessions h i of
          None \<Rightarrow> (ReplyError, [], h)
        | Some stored \<Rightarrow>
            (case store_updateSessionMetadata h i (u_metadata d) (u_expectedVersion d)
                    (namespace stored) of
               (UpdSuccess ver v, h1) \<Rightarrow>
                 (let (ds, h2) =
                        handleRealtimeEvent h1
                          \<lparr>ev_type = SessionUpdated, ev_namespace = None,
                           ev_sessionId = Some i, ev_message = None\<rparr>
                  in (ReplySuccess ver v, ds, h2))
             | (UpdMismatch ver v, h1) \<Rightarrow> (ReplyMismatch ver v, [], h1)
             | (UpdError, h1) \<Rightarrow> (ReplyError, [], h1)))"

section \<open>Route guards (web/routes/guards.ts and the CLI routes)\<close>

text \<open>\<open>c.json({ error }, status)\<close>: an error response carries a message and a status only.\<close>

datatype response = JsonError string nat

text \<open>
  \<open>requireSession(c, engine, sessionId, options)\<close>; \<open>ns\<close> is \<open>c.get('namespace')\<close> and
  \<open>requireActive\<close> is \<open>options?.requireActive\<close> (\<open>None\<close> when not given).
\<close>

definition requireSession ::
  "hub \<Rightarrow> string \<Rightarrow> string \<Rightarrow> bool option \<Rightarrow> (response + string \<times> session) \<times> hub" where
  "requireSession h ns sessionId requireActive =
     (let (access, h') = resolveSessionAccess h sessionId ns
      in case access of
           AccessFail reason \<Rightarrow>
             (Inl (JsonError
                     (if reason = AccessDenied then ''Session access denied'' else ''Session not found'')
                     (if reason = AccessDenied then 403 else 404)), h')
         | AccessOk i s \<Rightarrow>
             if requireActive = Some True \<and> \<not> active s
             then (Inl (JsonError ''Session is inactive'' 409), h')
             else (Inr (i, s), h'))"

datatype resolved = ResolvedOk session string | ResolvedFail nat string

text \<open>\<open>resolveSessionForNamespace(engine, sessionId, namespace)\<close> of the CLI routes.\<close>

definition resolveSessionForNamespace :: "hub \<Rightarrow> string \<Rightarrow> string \<Rightarrow> resolved \<times> hub" where
  "resolveSessionForNamespace h sessionId ns =
     (let (access, h') = resolveSessionAccess h sessionId ns
      in case access of
           AccessOk i s \<Rightarrow> (ResolvedOk s i, h')
         | AccessFail reason \<Rightarrow>
             (ResolvedFail (if reason = AccessDenied then 403 else 404)
                (if reason = AccessDenied then ''Session access denied'' else ''Session not found''), h'))"

section \<open>Message service\<close>

text \<open>\<open>beforeSeq\<close> bounds a page from above; \<open>None\<close> (null) bounds nothing.\<close>

fun before_ok :: "int option \<Rightarrow> message \<Rightarrow> bool" where
  "before_ok None m = True"
| "before_ok (Some b) m = (seq m < b)"

text \<open>
  Modelled from the spec: \<open>store.messages.getMessages(sessionId, limit, beforeSeq?)\<close> (the
  store is not among the sources). Section 4.2: up to \<open>limit\<close> messages with
  \<open>seq < beforeSeq\<close>, or the most recent \<open>limit\<close> when \<open>beforeSeq\<close> is absent, in the store's
  natural order. The ledger is append-only, so the most recent messages are its last ones;
  with a bound, the page holds the last \<open>limit\<close> of the messages below the bound
  (reverse-chronological pagination). \<open>limit\<close> is a count.
\<close>

definition store_getMessages :: "hub \<Rightarrow> string \<Rightarrow> nat \<Rightarrow> int option \<Rightarrow> message list" where
  "store_getMessages h i lim beforeSeq =
     (let older = filter (before_ok beforeSeq) (store_messages h i)
      in drop (length older - lim) older)"

text \<open>The projection of a stored message to the five fields a client sees.\<close>

definition toDecrypted :: "message \<Rightarrow> message" where
  "toDecrypted m =
     \<lparr>mid = mid m, seq = seq m, localId = localId m, content = content m,
      createdAt = createdAt m\<rparr>"

text \<open>
  One turn of the loop \<open>for (const m of messages)\<close> that finds the oldest \<open>seq\<close>
  (\<open>typeof m.seq === 'number'\<close> holds of every stored message).
\<close>

fun oldest_step :: "message \<Rightarrow> int option \<Rightarrow> int option" where
  "oldest_step m None = Some (seq m)"
| "oldest_step m (Some a) = (if seq m < a then Some (seq m) else Some a)"

record page =
  pg_limit :: nat
  pg_beforeSeq :: "int option"
  nextBeforeSeq :: "int option"
  hasMore :: bool

record messages_page =
  messages :: "message list"
  page :: page

text \<open>\<open>MessageService.getMessagesPage(sessionId, { limit, beforeSeq })\<close>.\<close>

definition getMessagesPage :: "hub \<Rightarrow> string \<Rightarrow> nat \<Rightarrow> int option \<Rightarrow> messages_page" where
  "getMessagesPage h sessionId lim beforeSeq =
     (let stored = store_getMessages h sessionId lim beforeSeq;
          msgs = map toDecrypted stored;
          oldestSeq = fold oldest_step msgs None;
          next = oldestSeq;
          more = (next \<noteq> None \<and> length (store_getMessages h sessionId 1 next) > 0)
      in \<lparr>messages = msgs,
          page = \<lparr>pg_limit = lim, pg_beforeSeq = beforeSeq, nextBeforeSeq = next,
                  hasMore = more\<rparr>\<rparr>)"

section \<open>Spawning agents\<close>

datatype agent_flavor = Claude | Codex | Gemini | Opencode

datatype session_type = Simple | Worktree

text \<open>The request \<open>AgentManager.spawnSession\<close> receives, and what it answers.\<close>

record spawn_opts =
  directory :: string
  agent :: agent_flavor
  model :: "string option"
  yolo :: "bool option"
  resumeSessionId :: "string option"

datatype spawn_result = SpawnSuccess string | SpawnError string

text \<open>
  The agent manager bootstraps and runs an agent process, which is outside the hub; what
  it answers to a request is a parameter \<open>am\<close> of the model.
\<close>

type_synonym agent_manager = "spawn_opts \<Rightarrow> spawn_result"

text \<open>
  The object literal \<open>{ directory, agent, model, yolo, resumeSessionId }\<close> that
  \<open>SyncEngine.spawnSession\<close> builds from its eight parameters; \<open>agent\<close> defaults to
  \<open>'claude'\<close>.
\<close>

definition spawnSession_request ::
  "string \<Rightarrow> string \<Rightarrow> agent_flavor option \<Rightarrow> string option \<Rightarrow> bool option \<Rightarrow>
   session_type option \<Rightarrow> string option \<Rightarrow> string option \<Rightarrow> spawn_opts" where
  "spawnSession_request machineId dir ag mo yo sessionType worktreeName resumeId =
     \<lparr>directory = dir, agent = (case ag of None \<Rightarrow> Claude | Some a \<Rightarrow> a), model = mo,
      yolo = yo, resumeSessionId = resumeId\<rparr>"

text \<open>\<open>SyncEngine.spawnSession\<close>.\<close>

definition spawnSession ::
  "agent_manager \<Rightarrow> string \<Rightarrow> string \<Rightarrow> agent_flavor option \<Rightarrow> string option \<Rightarrow> bool option \<Rightarrow>
   session_type option \<Rightarrow> string option \<Rightarrow> string option \<Rightarrow> spawn_result" where
  "spawnSession am machineId dir ag mo yo sessionType worktreeName resumeId =
     am (spawnSession_request machineId dir ag mo yo sessionType worktreeName resumeId)"

text \<open>The body of \<open>POST /machines/:id/spawn\<close> once parsed (\<open>spawnBodySchema\<close>).\<close>

record spawn_body =
  b_directory :: string
  b_agent :: "agent_flavor option"
  b_model :: "string option"
  b_yolo :: "bool option"
  b_sessionType :: "session_type option"
  b_worktreeName :: "string option"

text \<open>
  The spawn route: 503 without an engine, 400 for a body the schema rejects (an empty
  \<open>directory\<close>), else the engine's answer for machine \<open>'local'\<close>, whatever \<open>:id\<close> was.
\<close>

definition spawnRoute :: "agent_manager option \<Rightarrow> spawn_body \<Rightarrow> response + spawn_result" where
  "spawnRoute engine body =
     (case engine of
        None \<Rightarrow> Inl (JsonError ''Not connected'' 503)
      | Some am \<Rightarrow>
          if b_directory body = [] then Inl (JsonError ''Invalid body'' 400)
          else Inr (spawnSession am ''local'' (b_directory body) (b_agent body) (b_model body)
                      (b_yolo body) (b_sessionType body) (b_worktreeName body) None))"

section \<open>Waiting for a session to become active\<close>

text \<open>
  The wait loop reads the clock (\<open>Date.now()\<close>, in whole milliseconds) and suspends on a
  250 ms timer, while the agent process signals liveness on its own schedule. The
  environment is a timeline: the hub as the engine finds it at clock reading \<open>t\<close>, and the
  skew of the timer started at \<open>t\<close>, that is by how many milliseconds the clock has moved
  more (or, when negative, less) than 250 when the loop reads it again.
\<close>

record timeline =
  world_at :: "int \<Rightarrow> hub"
  skew :: "int \<Rightarrow> int"

text \<open>
  The clock reading after the timer started at reading \<open>now\<close>. However early the timer
  fires, the clock has moved on by a millisecond at least.
\<close>

definition next_reading :: "timeline \<Rightarrow> int \<Rightarrow> int" where
  "next_reading tline now = now + max 1 (250 + skew tline now)"

lemma next_reading_later: "now < next_reading tline now"
  by (simp add: next_reading_def)

text \<open>\<open>this.getSession(sessionId)?.active\<close> at clock reading \<open>t\<close>.\<close>

definition observed_active :: "timeline \<Rightarrow> string \<Rightarrow> int \<Rightarrow> bool" where
  "observed_active tline sessionId t =
     (case fst (getSession (world_at tline t) sessionId) of
        None \<Rightarrow> False
      | Some s \<Rightarrow> active s)"

text \<open>
  The outcome of a wait: the boolean returned, the clock readings at which the session
  was polled, and the clock reading on return.
\<close>

record wait_outcome =
  became_active :: bool
  polls :: "int list"
  returned_at :: int

text \<open>
  The loop \<open>while (Date.now() - start < timeoutMs)\<close> of \<open>waitForSessionActive\<close> for a finite
  \<open>timeoutMs\<close>, entered with the clock at \<open>now\<close>. (A finite timeout that is not a whole
  number of milliseconds tests like the next whole number; \<open>NaN\<close> and \<open>-Infinity\<close> fail the
  test at once, like 0.)
\<close>

function waitLoop :: "timeline \<Rightarrow> string \<Rightarrow> int \<Rightarrow> int \<Rightarrow> int \<Rightarrow> wait_outcome" where
  "waitLoop tline sessionId timeoutMs start now =
     (if now - start < timeoutMs then
        if observed_active tline sessionId now
        then \<lparr>became_active = True, polls = [now], returned_at = now\<rparr>
        else
          (let w = waitLoop tline sessionId timeoutMs start (next_reading tline now)
           in w\<lparr>polls := now # polls w\<rparr>)
      else \<lparr>became_active = False, polls = [], returned_at = now\<rparr>)"
  by pat_completeness auto
termination
proof (relation "measure (\<lambda>(tline, sessionId, timeoutMs, start, now). nat (start + timeoutMs - now))",
    goal_cases)
  case 1
  show ?case by simp
next
  case (2 tline sessionId timeoutMs start now)
  then show ?case
    using next_reading_later [of now tline] by simp
qed

declare waitLoop.simps [simp del]

text \<open>
  \<open>waitForSessionActive(sessionId, timeoutMs = 15_000)\<close> for a finite \<open>timeoutMs\<close>, called
  when the clock reads \<open>start\<close>.
\<close>

definition waitForSessionActive :: "timeline \<Rightarrow> string \<Rightarrow> int option \<Rightarrow> int \<Rightarrow> wait_outcome" where
  "waitForSessionActive tline sessionId timeoutMs start =
     waitLoop tline sessionId (case timeoutMs of None \<Rightarrow> 15000 | Some t \<Rightarrow> t) start start"


section \<open>Resuming a session\<close>

datatype resume_code =
  session_not_found | access_denied | no_machine_online | resume_unavailable | resume_failed

text \<open>\<open>ResumeSessionResult\<close>: success with a session id, or an error message with a code.\<close>

datatype resume_result = ResumeSuccess string | ResumeError string resume_code

text \<open>What a \<open>catch\<close> receives: an \<open>Error\<close> with its message, or any other thrown value.\<close>

datatype thrown = ErrorObject string | NonError

text \<open>
  \<open>SessionCache.mergeSessions(oldId, newId, namespace)\<close> is not among the sources and
  works on the store; whether a call completes (\<open>None\<close>) or throws is a parameter.
\<close>

type_synonym merge_sessions = "string \<Rightarrow> string \<Rightarrow> string \<Rightarrow> thrown option"

text \<open>
  The collaborators of a resume: the agent manager, the merge, the timeline the wait
  runs on and the clock reading at which the wait starts.
\<close>

record resume_env =
  agent_spawn :: agent_manager
  merge :: merge_sessions
  wait_timeline :: timeline
  wait_start :: int

text \<open>The calls a resume makes on its collaborators, in order.\<close>

datatype resume_call =
  SpawnCall spawn_opts | WaitCall string | MergeCall string string string

text \<open>
  \<open>metadata.flavor === 'codex' || metadata.flavor === 'gemini' || metadata.flavor ===
  'opencode' ? metadata.flavor : 'claude'\<close>.
\<close>

definition flavor_of :: "metadata \<Rightarrow> agent_flavor" where
  "flavor_of md =
     (if flavor md = Some ''codex'' then Codex
      else if flavor md = Some ''gemini'' then Gemini
      else if flavor md = Some ''opencode'' then Opencode
      else Claude)"

text \<open>The resume token of the metadata's flavor.\<close>

definition resume_token :: "metadata \<Rightarrow> string option" where
  "resume_token md =
     (case flavor_of md of
        Codex \<Rightarrow> codexSessionId md
      | Gemini \<Rightarrow> geminiSessionId md
      | Opencode \<Rightarrow> opencodeSessionId md
      | Claude \<Rightarrow> claudeSessionId md)"

text \<open>
  \<open>SyncEngine.resumeSession(sessionId, namespace)\<close>: the result and the calls made. The
  state changes the collaborators make reach the engine through the timeline.
\<close>

definition resumeSession ::
  "resume_env \<Rightarrow> hub \<Rightarrow> string \<Rightarrow> string \<Rightarrow> resume_result \<times> resume_call list" where
  "resumeSession env h sessionId ns =
     (case fst (resolveSessionAccess h sessionId ns) of
        AccessFail reason \<Rightarrow>
          (ResumeError
             (if reason = AccessDenied then ''Session access denied'' else ''Session not found'')
             (if reason = AccessDenied then access_denied else session_not_found), [])
      | AccessOk accessId s \<Rightarrow>
          if active s then (ResumeSuccess accessId, [])
          else
            (case metadata s of
               None \<Rightarrow> (ResumeError ''Session metadata missing path'' resume_unavailable, [])
             | Some md \<Rightarrow>
                 if \<not> is_string (path md)
                 then (ResumeError ''Session metadata missing path'' resume_unavailable, [])
                 else if \<not> truthy (resume_token md)
                 then (ResumeError ''Resume session ID unavailable'' resume_unavailable, [])
                 else
                   (let opts = \<lparr>directory = str_of (path md), agent = flavor_of md,
                                model = None, yolo = None, resumeSessionId = resume_token md\<rparr>
                    in case agent_spawn env opts of
                         SpawnError msg \<Rightarrow> (ResumeError msg resume_failed, [SpawnCall opts])
                       | SpawnSuccess newId \<Rightarrow>
                           if \<not> became_active
                                  (waitForSessionActive (wait_timeline env) newId None (wait_start env))
                           then (ResumeError ''Session failed to become active'' resume_failed,
                                 [SpawnCall opts, WaitCall newId])
                           else if newId \<noteq> accessId then
                             (case merge env accessId newId ns of
                                Some e \<Rightarrow>
                                  (ResumeError
                                     (case e of ErrorObject msg \<Rightarrow> msg
                                      | NonError \<Rightarrow> ''Failed to merge resumed session'')
                                     resume_failed,
                                   [SpawnCall opts, WaitCall newId, MergeCall accessId newId ns])
                              | None \<Rightarrow>
                                  (ResumeSuccess newId,
                                   [SpawnCall opts, WaitCall newId, MergeCall accessId newId ns]))
                           else (ResumeSuccess newId, [SpawnCall opts, WaitCall newId]))))"

text \<open>The request a resume would send for a session, when its metadata allows one.\<close>

definition resume_request :: "session \<Rightarrow> spawn_opts option" where
  "resume_request s =
     (case metadata s of
        None \<Rightarrow> None
      | Some md \<Rightarrow>
          if is_string (path md) \<and> truthy (resume_token md)
          then Some \<lparr>directory = str_of (path md), agent = flavor_of md, model = None,
                     yolo = None, resumeSessionId = resume_token md\<rparr>
          else None)"

fun error_code :: "resume_result \<Rightarrow> resume_code option" where
  "error_code (ResumeSuccess _) = None"
| "error_code (ResumeError _ c) = Some c"

section \<open>Sending a message\<close>

text \<open>
  Modelled from the spec: the store's allocation of the next \<open>seq\<close> of a session (the store
  is not among the sources). Section 3: \<open>seq\<close> increases strictly within a session, so the
  next one is above every \<open>seq\<close> of its ledger; the first is 1.
\<close>

definition next_seq :: "message list \<Rightarrow> int" where
  "next_seq ledger = fold (\<lambda>m a. max a (seq m)) ledger 0 + 1"

text \<open>
  Modelled from the spec: \<open>store.messages.addMessage(sessionId, content, localId?)\<close> (the
  store is not among the sources). Sections 3 and 6: an atomic allocation of the next
  \<open>seq\<close> and an append; the message keeps the \<open>localId\<close> it was given. The store makes the
  id and the timestamp, here \<open>fresh\<close> and \<open>now\<close>. Whether the store dedupes on \<open>localId\<close>
  is an open question of the spec, and no dedupe is modelled.
\<close>

definition store_addMessage ::
  "hub \<Rightarrow> string \<Rightarrow> msg_content \<Rightarrow> string option \<Rightarrow> string \<Rightarrow> int \<Rightarrow> message \<times> hub" where
  "store_addMessage h i c lid fresh now =
     (let m = \<lparr>mid = fresh, seq = next_seq (store_messages h i), localId = lid, content = c,
               createdAt = now\<rparr>
      in (m, h\<lparr>store_messages := (store_messages h)(i := store_messages h i @ [m])\<rparr>))"

text \<open>The \<open>update\<close> pushed to the agent: \<open>{ id, seq, createdAt, body: { t, sid, message } }\<close>.\<close>

record update_push =
  up_id :: string
  up_seq :: int
  up_createdAt :: int
  up_sid :: string
  up_message :: message

text \<open>
  A listener on a transport's inbound emitter returns normally (\<open>None\<close>) or throws. The
  listeners are registered by the agent's session client, which is outside the hub.
\<close>

type_synonym listener = "update_push \<Rightarrow> thrown option"

text \<open>
  \<open>LocalTransport.send(event, ...args)\<close> is \<open>this.inbound.emit(event, ...args)\<close>: the
  listeners of the event run in order, and the first exception ends the run and reaches
  the caller.
\<close>

fun run_listeners :: "listener list \<Rightarrow> update_push \<Rightarrow> thrown option" where
  "run_listeners [] u = None"
| "run_listeners (l # ls) u = (case l u of Some e \<Rightarrow> Some e | None \<Rightarrow> run_listeners ls u)"

record transport =
  inbound :: "string \<Rightarrow> listener list"

text \<open>The agent manager's map of live sessions, by the transport of each.\<close>

type_synonym agent_sessions = "string \<rightharpoonup> transport"

text \<open>
  \<open>AgentManager.sendToSession\<close>:
  \<open>this.sessions.get(sessionId)?.transport.send(event, ...args)\<close>.
\<close>

definition sendToSession :: "agent_sessions \<Rightarrow> string \<Rightarrow> string \<Rightarrow> update_push \<Rightarrow> thrown option" where
  "sendToSession agents sessionId event u =
     (case agents sessionId of
        None \<Rightarrow> None
      | Some tr \<Rightarrow> run_listeners (inbound tr event) u)"

record send_payload =
  p_text :: string
  p_localId :: "string option"
  p_attachments :: "attachment list option"
  p_sentFrom :: "sent_from option"

datatype settled = Resolved | Rejected thrown

text \<open>
  What a send leaves behind: how its promise settled, the events it handed to the
  publisher, what the subscribers received, and the hub.
\<close>

record send_outcome =
  promise :: settled
  published :: "sync_event list"
  delivered :: "delivery list"
  hub_after :: hub

text \<open>The message a \<open>message-received\<close> event carries for a stored message.\<close>

definition message_received :: "string \<Rightarrow> message \<Rightarrow> sync_event" where
  "message_received sessionId msg =
     \<lparr>ev_type = MessageReceived, ev_namespace = None, ev_sessionId = Some sessionId,
      ev_message = Some \<lparr>mid = mid msg, seq = seq msg, localId = localId msg,
                          content = content msg, createdAt = createdAt msg\<rparr>\<rparr>"

text \<open>
  \<open>MessageService.sendMessage(sessionId, payload)\<close>: append to the ledger, push the
  \<open>update\<close> to the agent, publish \<open>message-received\<close>. Nothing catches what the push
  throws, so an exception there rejects the promise before the event is published.
\<close>

definition sendMessage ::
  "hub \<Rightarrow> agent_sessions \<Rightarrow> string \<Rightarrow> send_payload \<Rightarrow> string \<Rightarrow> int \<Rightarrow> send_outcome" where
  "sendMessage h agents sessionId payload fresh now =
     (let sentFrom = (case p_sentFrom payload of None \<Rightarrow> Webapp | Some f \<Rightarrow> f);
          c = UserText (p_text payload) (p_attachments payload) sentFrom;
          (msg, h1) = store_addMessage h sessionId c (p_localId payload) fresh now;
          u = \<lparr>up_id = mid msg, up_seq = seq msg, up_createdAt = createdAt msg,
               up_sid = sessionId,
               up_message = \<lparr>mid = mid msg, seq = seq msg, localId = localId msg,
                               content = content msg, createdAt = createdAt msg\<rparr>\<rparr>
      in case sendToSession agents sessionId ''update'' u of
           Some e \<Rightarrow>
             \<lparr>promise = Rejected e, published = [], delivered = [], hub_after = h1\<rparr>
         | None \<Rightarrow>
             (let ev = message_received sessionId msg;
                  (ds, h2) = emit h1 ev
              in \<lparr>promise = Resolved, published = [ev], delivered = ds, hub_after = h2\<rparr>))"

section \<open>Namespace isolation\<close>

lemma resolveSessionAccess_lookup:
  "fst (resolveSessionAccess h i ns) =
     (case lookupSession h i of
        None \<Rightarrow> AccessFail NotFound
      | Some s \<Rightarrow> if namespace s \<noteq> ns then AccessFail AccessDenied else AccessOk i s)"
  by (simp add: resolveSessionAccess_def lookupSession_def cache_getSession_def
      refreshSession_def split: option.splits)

lemma requireSession_fail:
  "fst (resolveSessionAccess h i ns) = AccessFail r \<Longrightarrow>
   fst (requireSession h ns i opts) =
     Inl (JsonError (if r = AccessDenied then ''Session access denied'' else ''Session not found'')
            (if r = AccessDenied then 403 else 404))"
  by (cases "resolveSessionAccess h i ns") (simp add: requireSession_def)

lemma resolveSessionForNamespace_fail:
  "fst (resolveSessionAccess h i ns) = AccessFail r \<Longrightarrow>
   fst (resolveSessionForNamespace h i ns) =
     ResolvedFail (if r = AccessDenied then 403 else 404)
       (if r = AccessDenied then ''Session access denied'' else ''Session not found'')"
  by (cases "resolveSessionAccess h i ns") (simp add: resolveSessionForNamespace_def)

text \<open>A hub whose store holds session \<open>s1\<close> of namespace \<open>beta\<close>; the cache is cold.\<close>

definition beta_session :: session where
  "beta_session =
     \<lparr>sid = ''s1'', namespace = ''beta'', active = False, metadata = None, metadataVersion = 1\<rparr>"

definition cold_hub :: hub where
  "cold_hub =
     \<lparr>cache = Map.empty, store_sessions = [''s1'' \<mapsto> beta_session],
      store_messages = (\<lambda>_. []), listeners = [0, 1]\<rparr>"

text \<open>
  C1. A session \<open>S\<close> that belongs to a namespace \<open>nsB\<close> other than the caller's \<open>nsA\<close>
  resolves to \<open>{ok:false, reason:'access-denied'}\<close>, a value that holds nothing of the
  session, and both route guards answer 403 with the fixed message; an id that no session
  has, in the cache or in the store, resolves to \<open>not-found\<close> and the guards answer 404.
  Whatever the failed resolution, the guards map \<open>access-denied\<close> to 403 and \<open>not-found\<close>
  to 404.
\<close>

theorem resolveSessionAccess_namespace_isolation:
  "(lookupSession h S = Some s \<and> namespace s = nsB \<and> nsB \<noteq> nsA \<longrightarrow>
      fst (resolveSessionAccess h S nsA) = AccessFail AccessDenied
    \<and> fst (requireSession h nsA S opts) = Inl (JsonError ''Session access denied'' 403)
    \<and> fst (resolveSessionForNamespace h S nsA) = ResolvedFail 403 ''Session access denied'')
 \<and> (cache h S = None \<and> store_sessions h S = None \<longrightarrow>
      fst (resolveSessionAccess h S nsA) = AccessFail NotFound
    \<and> fst (requireSession h nsA S opts) = Inl (JsonError ''Session not found'' 404)
    \<and> fst (resolveSessionForNamespace h S nsA) = ResolvedFail 404 ''Session not found'')
 \<and> (fst (resolveSessionAccess h S nsA) = AccessFail r \<longrightarrow>
      fst (requireSession h nsA S opts) =
        Inl (JsonError (if r = AccessDenied then ''Session access denied'' else ''Session not found'')
               (if r = AccessDenied then 403 else 404))
    \<and> fst (resolveSessionForNamespace h S nsA) =
        ResolvedFail (if r = AccessDenied then 403 else 404)
          (if r = AccessDenied then ''Session access denied'' else ''Session not found''))"
proof (intro conjI impI)
  assume a: "lookupSession h S = Some s \<and> namespace s = nsB \<and> nsB \<noteq> nsA"
  then show d: "fst (resolveSessionAccess h S nsA) = AccessFail AccessDenied"
    by (simp add: resolveSessionAccess_lookup)
  from requireSession_fail [OF d]
  show "fst (requireSession h nsA S opts) = Inl (JsonError ''Session access denied'' 403)"
    by simp
  from resolveSessionForNamespace_fail [OF d]
  show "fst (resolveSessionForNamespace h S nsA) = ResolvedFail 403 ''Session access denied''"
    by simp
next
  assume a: "cache h S = None \<and> store_sessions h S = None"
  then show n: "fst (resolveSessionAccess h S nsA) = AccessFail NotFound"
    by (simp add: resolveSessionAccess_lookup lookupSession_def)
  from requireSession_fail [OF n]
  show "fst (requireSession h nsA S opts) = Inl (JsonError ''Session not found'' 404)"
    by simp
  from resolveSessionForNamespace_fail [OF n]
  show "fst (resolveSessionForNamespace h S nsA) = ResolvedFail 404 ''Session not found''"
    by simp
next
  assume r: "fst (resolveSessionAccess h S nsA) = AccessFail r"
  from requireSession_fail [OF r]
  show "fst (requireSession h nsA S opts) =
        Inl (JsonError (if r = AccessDenied then ''Session access denied'' else ''Session not found'')
               (if r = AccessDenied then 403 else 404))" .
  from resolveSessionForNamespace_fail [OF r]
  show "fst (resolveSessionForNamespace h S nsA) =
        ResolvedFail (if r = AccessDenied then 403 else 404)
          (if r = AccessDenied then ''Session access denied'' else ''Session not found'')" .
qed

theorem resolveSessionAccess_namespace_isolation_witness:
  "fst (resolveSessionAccess cold_hub ''s1'' ''alpha'') = AccessFail AccessDenied
 \<and> fst (requireSession cold_hub ''alpha'' ''s1'' None) = Inl (JsonError ''Session access denied'' 403)
 \<and> fst (resolveSessionForNamespace cold_hub ''s1'' ''alpha'') = ResolvedFail 403 ''Session access denied''
 \<and> fst (resolveSessionAccess cold_hub ''s2'' ''alpha'') = AccessFail NotFound
 \<and> fst (requireSession cold_hub ''alpha'' ''s2'' None) = Inl (JsonError ''Session not found'' 404)
 \<and> fst (resolveSessionForNamespace cold_hub ''s2'' ''alpha'') = ResolvedFail 404 ''Session not found''"
proof -
  have a: "lookupSession cold_hub ''s1'' = Some beta_session \<and> namespace beta_session = ''beta''
           \<and> ''beta'' \<noteq> ''alpha''"
    by (simp add: lookupSession_def cold_hub_def beta_session_def)
  have b: "cache cold_hub ''s2'' = None \<and> store_sessions cold_hub ''s2'' = None"
    by (simp add: cold_hub_def)
  from a resolveSessionAccess_namespace_isolation
         [of cold_hub "''s1''" beta_session "''beta''" "''alpha''" None NotFound]
  have 1: "fst (resolveSessionAccess cold_hub ''s1'' ''alpha'') = AccessFail AccessDenied
     \<and> fst (requireSession cold_hub ''alpha'' ''s1'' None) = Inl (JsonError ''Session access denied'' 403)
     \<and> fst (resolveSessionForNamespace cold_hub ''s1'' ''alpha'') = ResolvedFail 403 ''Session access denied''"
    by blast
  from b resolveSessionAccess_namespace_isolation
         [of cold_hub "''s2''" beta_session "''beta''" "''alpha''" None NotFound]
  have 2: "fst (resolveSessionAccess cold_hub ''s2'' ''alpha'') = AccessFail NotFound
     \<and> fst (requireSession cold_hub ''alpha'' ''s2'' None) = Inl (JsonError ''Session not found'' 404)
     \<and> fst (resolveSessionForNamespace cold_hub ''s2'' ''alpha'') = ResolvedFail 404 ''Session not found''"
    by blast
  from 1 2 show ?thesis by blast
qed

section \<open>Optimistic concurrency of metadata writes\<close>

lemma store_update_success:
  "store_updateSessionMetadata h i m (Some v) ns = (UpdSuccess ver val, h1) \<Longrightarrow>
   ver = v + 1 \<and> val = m \<and>
   (\<exists>s. store_sessions h i = Some s \<and> namespace s = ns \<and> metadataVersion s = v \<and>
        h1 = h\<lparr>store_sessions := (store_sessions h)(i \<mapsto> s\<lparr>metadata := m, metadataVersion := v + 1\<rparr>)\<rparr>)"
  by (auto simp: store_updateSessionMetadata_def split: option.splits if_splits)

lemma store_update_stale:
  "store_sessions h i = Some s \<Longrightarrow> namespace s = ns \<Longrightarrow> metadataVersion s \<noteq> v \<Longrightarrow>
   store_updateSessionMetadata h i m (Some v) ns = (UpdMismatch (metadataVersion s) (metadata s), h)"
  by (simp add: store_updateSessionMetadata_def)

lemma handleRealtimeEvent_store:
  "store_sessions (snd (handleRealtimeEvent h ev)) = store_sessions h"
  by (auto simp: handleRealtimeEvent_def emit_def resolveNamespace_def getSession_def
      refreshSession_def cache_getSession_def Let_def split: option.splits prod.splits if_splits)

lemma onUpdateMetadata_cases:
  assumes "u_sid d = JStr S" and "store_sessions h S = Some stored"
      and "store_updateSessionMetadata h S (u_metadata d) (u_expectedVersion d) (namespace stored) = (r, h1)"
  shows "onUpdateMetadata h d =
     (case r of
        UpdSuccess ver v \<Rightarrow>
          (ReplySuccess ver v,
           handleRealtimeEvent h1 \<lparr>ev_type = SessionUpdated, ev_namespace = None,
                                   ev_sessionId = Some S, ev_message = None\<rparr>)
      | UpdMismatch ver v \<Rightarrow> (ReplyMismatch ver v, [], h1)
      | UpdError \<Rightarrow> (ReplyError, [], h1))"
  using assms
  by (simp add: onUpdateMetadata_def split: update_result.splits prod.splits)

lemma onUpdateMetadata_success:
  assumes ok: "onUpdateMetadata h d = (ReplySuccess ver val, ds, h')"
      and sid: "u_sid d = JStr S" and ev: "u_expectedVersion d = Some v"
  shows "ver = v + 1 \<and> val = u_metadata d \<and>
         (\<exists>s. store_sessions h S = Some s \<and> metadataVersion s = v \<and>
              store_sessions h' = (store_sessions h)(S \<mapsto> s\<lparr>metadata := u_metadata d, metadataVersion := v + 1\<rparr>))"
proof -
  obtain stored where st: "store_sessions h S = Some stored"
    using ok sid by (cases "store_sessions h S") (simp_all add: onUpdateMetadata_def)
  obtain r h1 where upd:
    "store_updateSessionMetadata h S (u_metadata d) (Some v) (namespace stored) = (r, h1)"
    by (cases "store_updateSessionMetadata h S (u_metadata d) (Some v) (namespace stored)")
  from onUpdateMetadata_cases [OF sid st, of r h1] upd ev ok
  have r: "r = UpdSuccess ver val"
    and h': "(ds, h') = handleRealtimeEvent h1 \<lparr>ev_type = SessionUpdated, ev_namespace = None,
                                   ev_sessionId = Some S, ev_message = None\<rparr>"
    by (cases r; simp)+
  from store_update_success [OF upd [unfolded r]] st
  have "ver = v + 1" "val = u_metadata d" "metadataVersion stored = v"
    "h1 = h\<lparr>store_sessions := (store_sessions h)(S \<mapsto> stored\<lparr>metadata := u_metadata d, metadataVersion := v + 1\<rparr>)\<rparr>"
    by auto
  moreover have "store_sessions h' = store_sessions h1"
    using handleRealtimeEvent_store [of h1] h' [symmetric] by (metis snd_conv)
  ultimately show ?thesis using st by simp
qed


lemma handle_session_updated:
  "S \<noteq> [] \<Longrightarrow>
   handleRealtimeEvent h \<lparr>ev_type = SessionUpdated, ev_namespace = None,
                          ev_sessionId = Some S, ev_message = None\<rparr> = ([], snd (refreshSession h S))"
  by (simp add: handleRealtimeEvent_def)

lemma getSession_after_refresh:
  "store_sessions h S = Some s \<Longrightarrow> fst (getSession (snd (refreshSession h S)) S) = Some s"
  by (simp add: getSession_def refreshSession_def cache_getSession_def)

definition warm_session :: session where
  "warm_session =
     \<lparr>sid = ''s1'', namespace = ''alpha'', active = True, metadata = None, metadataVersion = 4\<rparr>"

definition warm_hub :: hub where
  "warm_hub =
     \<lparr>cache = [''s1'' \<mapsto> warm_session], store_sessions = [''s1'' \<mapsto> warm_session],
      store_messages = (\<lambda>_. []), listeners = [0]\<rparr>"

definition repo_metadata :: metadata where
  "repo_metadata =
     \<lparr>path = JStr ''/repo'', flavor = None, claudeSessionId = Some ''tok1'',
      codexSessionId = None, geminiSessionId = None, opencodeSessionId = None\<rparr>"

definition write_repo :: update_data where
  "write_repo = \<lparr>u_sid = JStr ''s1'', u_metadata = Some repo_metadata, u_expectedVersion = Some 4\<rparr>"

text \<open>
  C2. When an \<open>update-metadata\<close> request for session \<open>S\<close> with metadata \<open>m\<close> and expected
  version \<open>v\<close> succeeds, the reply and every later read (of the store, and through the
  engine's cache for a non-empty id) show version \<open>v + 1\<close> and metadata \<open>m\<close>. A second request
  with the same expected version \<open>v\<close>, whatever its metadata, gets \<open>version-mismatch\<close> with
  the current version \<open>v + 1\<close> and the current value \<open>m\<close> from the store and is answered
  so; it publishes nothing and leaves the whole state as it was.
\<close>

theorem updateSessionMetadata_versioned:
  assumes ok: "onUpdateMetadata h d = (ReplySuccess ver val, ds, h')"
      and sid: "u_sid d = JStr S" and ev: "u_expectedVersion d = Some v"
      and sid2: "u_sid d2 = JStr S" and ev2: "u_expectedVersion d2 = Some v"
  shows "ver = v + 1 \<and> val = u_metadata d
       \<and> (\<exists>s'. store_sessions h' S = Some s' \<and> metadataVersion s' = v + 1
               \<and> metadata s' = u_metadata d)
       \<and> (S \<noteq> [] \<longrightarrow> (\<exists>s'. fst (getSession h' S) = Some s' \<and> metadataVersion s' = v + 1
               \<and> metadata s' = u_metadata d))
       \<and> onUpdateMetadata h' d2 = (ReplyMismatch (v + 1) (u_metadata d), [], h')
       \<and> (\<exists>s'. store_sessions h' S = Some s'
               \<and> store_updateSessionMetadata h' S (u_metadata d2) (Some v) (namespace s')
                   = (UpdMismatch (v + 1) (u_metadata d), h'))"
proof -
  from onUpdateMetadata_success [OF ok sid ev] obtain s where
    ver: "ver = v + 1" "val = u_metadata d" and s: "store_sessions h S = Some s"
    and st': "store_sessions h' = (store_sessions h)(S \<mapsto> s\<lparr>metadata := u_metadata d, metadataVersion := v + 1\<rparr>)"
    by blast
  let ?s' = "s\<lparr>metadata := u_metadata d, metadataVersion := v + 1\<rparr>"
  have read: "store_sessions h' S = Some ?s'" by (simp add: st')
  have stale: "store_updateSessionMetadata h' S (u_metadata d2) (Some v) (namespace ?s')
                = (UpdMismatch (metadataVersion ?s') (metadata ?s'), h')"
    by (rule store_update_stale [OF read]) simp_all
  have second: "onUpdateMetadata h' d2 = (ReplyMismatch (v + 1) (u_metadata d), [], h')"
    using onUpdateMetadata_cases [OF sid2 read, of _ h'] stale ev2 by simp
  have engine: "\<exists>s'. fst (getSession h' S) = Some s' \<and> metadataVersion s' = v + 1
               \<and> metadata s' = u_metadata d" if ne: "S \<noteq> []"
  proof -
    obtain stored where st: "store_sessions h S = Some stored" using s by blast
    obtain r h1 where upd:
      "store_updateSessionMetadata h S (u_metadata d) (Some v) (namespace stored) = (r, h1)"
      by (cases "store_updateSessionMetadata h S (u_metadata d) (Some v) (namespace stored)")
    from onUpdateMetadata_cases [OF sid st, of r h1] upd ev ok
    have h': "h' = snd (refreshSession h1 S)"
      by (cases r) (simp_all add: handle_session_updated [OF ne])
    have "store_sessions h1 = store_sessions h'"
      by (simp add: h' refreshSession_def split: option.splits)
    then have "store_sessions h1 S = Some ?s'" using read by simp
    from getSession_after_refresh [OF this] show ?thesis by (auto simp: h')
  qed
  from read stale have store: "\<exists>s'. store_sessions h' S = Some s'
               \<and> store_updateSessionMetadata h' S (u_metadata d2) (Some v) (namespace s')
                   = (UpdMismatch (v + 1) (u_metadata d), h')"
    by simp
  from ver read second engine store show ?thesis by simp
qed

theorem updateSessionMetadata_versioned_witness:
  "fst (onUpdateMetadata warm_hub write_repo) = ReplySuccess 5 (Some repo_metadata)
 \<and> map_option metadataVersion (store_sessions (snd (snd (onUpdateMetadata warm_hub write_repo))) ''s1'') = Some 5
 \<and> map_option metadataVersion (fst (getSession (snd (snd (onUpdateMetadata warm_hub write_repo))) ''s1'')) = Some 5
 \<and> onUpdateMetadata (snd (snd (onUpdateMetadata warm_hub write_repo))) write_repo
      = (ReplyMismatch 5 (Some repo_metadata), [], snd (snd (onUpdateMetadata warm_hub write_repo)))"
proof -
  have f: "fst (onUpdateMetadata warm_hub write_repo) = ReplySuccess 5 (Some repo_metadata)"
    by (simp add: onUpdateMetadata_def store_updateSessionMetadata_def warm_hub_def
        warm_session_def write_repo_def handleRealtimeEvent_def refreshSession_def Let_def)
  then have ok: "onUpdateMetadata warm_hub write_repo =
      (ReplySuccess 5 (Some repo_metadata), fst (snd (onUpdateMetadata warm_hub write_repo)),
       snd (snd (onUpdateMetadata warm_hub write_repo)))"
    by (metis prod.collapse)
  have sid: "u_sid write_repo = JStr ''s1''" and ev: "u_expectedVersion write_repo = Some 4"
    and md: "u_metadata write_repo = Some repo_metadata"
    by (simp_all add: write_repo_def)
  from updateSessionMetadata_versioned [OF ok sid ev sid ev] f md show ?thesis
    by auto
qed

section \<open>Namespace resolution of sync events\<close>

lemma getSession_lookup: "fst (getSession h i) = lookupSession h i"
  by (simp add: getSession_def lookupSession_def cache_getSession_def refreshSession_def
      split: option.splits)

lemma resolveNamespace_explicit:
  "truthy (ev_namespace ev) \<Longrightarrow> fst (resolveNamespace h ev) = ev_namespace ev"
  by (simp add: resolveNamespace_def)

lemma resolveNamespace_session:
  "\<not> truthy (ev_namespace ev) \<Longrightarrow> ev_sessionId ev = Some i \<Longrightarrow>
   fst (resolveNamespace h ev) = map_option namespace (lookupSession h i)"
  by (simp add: resolveNamespace_def getSession_lookup [symmetric] split: prod.splits)

lemma resolveNamespace_neither:
  "\<not> truthy (ev_namespace ev) \<Longrightarrow> ev_sessionId ev = None \<Longrightarrow> fst (resolveNamespace h ev) = None"
  by (simp add: resolveNamespace_def)

lemma emit_deliveries:
  "fst (emit h ev) =
     (case fst (resolveNamespace h ev) of
        None \<Rightarrow> []
      | Some n \<Rightarrow> map (\<lambda>l. \<lparr>d_listener = l, d_namespace = n, d_event = ev\<rparr>)
                    (listeners (snd (resolveNamespace h ev))))"
  by (cases "resolveNamespace h ev") (simp add: emit_def split: option.splits)

definition blank_namespace_event :: sync_event where
  "blank_namespace_event =
     \<lparr>ev_type = Toast, ev_namespace = Some [], ev_sessionId = Some ''s1'', ev_message = None\<rparr>"

definition alpha_event :: sync_event where
  "alpha_event =
     \<lparr>ev_type = Toast, ev_namespace = Some ''alpha'', ev_sessionId = Some ''s1'', ev_message = None\<rparr>"

definition session_event :: sync_event where
  "session_event =
     \<lparr>ev_type = OtherKind, ev_namespace = None, ev_sessionId = Some ''s1'', ev_message = None\<rparr>"

definition unscoped_event :: sync_event where
  "unscoped_event =
     \<lparr>ev_type = OtherKind, ev_namespace = None, ev_sessionId = None, ev_message = None\<rparr>"

text \<open>
  An event whose explicit namespace is the empty string and which names session \<open>s1\<close> of
  namespace \<open>beta\<close>: the explicit field is not used, the session's namespace is.
\<close>

theorem resolveNamespace_blank_counterexample:
  "ev_namespace blank_namespace_event = Some []
 \<and> fst (resolveNamespace cold_hub blank_namespace_event) = Some ''beta''
 \<and> fst (resolveNamespace cold_hub blank_namespace_event) \<noteq> ev_namespace blank_namespace_event
 \<and> map d_namespace (fst (emit cold_hub blank_namespace_event)) = [''beta'', ''beta'']"
  by (simp add: resolveNamespace_def blank_namespace_event_def cold_hub_def getSession_def
      cache_getSession_def refreshSession_def beta_session_def emit_def)

text \<open>
  C6 (as the code has it). Namespace resolution is a function of the event and the
  sessions: an explicit namespace that is a non-empty string is used; otherwise (no
  namespace, or the empty string) an event that names a session gets that session's
  namespace, if the session exists; an event with neither gets none. An event that resolves
  to no namespace reaches no subscriber, and every delivery carries the one namespace the
  event resolved to.
\<close>

theorem resolveNamespace_exclusive:
  "(truthy (ev_namespace ev) \<longrightarrow> fst (resolveNamespace h ev) = ev_namespace ev)
 \<and> (\<not> truthy (ev_namespace ev) \<and> ev_sessionId ev = Some i \<longrightarrow>
      fst (resolveNamespace h ev) = map_option namespace (lookupSession h i))
 \<and> (\<not> truthy (ev_namespace ev) \<and> ev_sessionId ev = None \<longrightarrow>
      fst (resolveNamespace h ev) = None)
 \<and> (fst (resolveNamespace h ev) = None \<longrightarrow> fst (emit h ev) = [])
 \<and> (\<forall>d \<in> set (fst (emit h ev)).
      fst (resolveNamespace h ev) = Some (d_namespace d) \<and> d_event d = ev)"
proof (intro conjI impI ballI)
  fix d assume d: "d \<in> set (fst (emit h ev))"
  then obtain n where n: "fst (resolveNamespace h ev) = Some n"
    by (cases "fst (resolveNamespace h ev)") (simp_all add: emit_deliveries)
  with d show "fst (resolveNamespace h ev) = Some (d_namespace d)"
    by (auto simp: emit_deliveries)
  from d n show "d_event d = ev"
    by (auto simp: emit_deliveries)
qed (simp_all add: resolveNamespace_explicit resolveNamespace_session resolveNamespace_neither
      emit_deliveries)

theorem resolveNamespace_exclusive_witness:
  "fst (resolveNamespace cold_hub alpha_event) = Some ''alpha''
 \<and> fst (resolveNamespace cold_hub session_event) = Some ''beta''
 \<and> fst (resolveNamespace cold_hub unscoped_event) = None
 \<and> fst (emit cold_hub unscoped_event) = []
 \<and> map d_namespace (fst (emit cold_hub session_event)) = [''beta'', ''beta'']"
proof -
  have "fst (resolveNamespace cold_hub alpha_event) = Some ''alpha''"
    using resolveNamespace_exclusive [of alpha_event cold_hub "''s1''"]
    by (simp add: alpha_event_def)
  moreover have "fst (resolveNamespace cold_hub session_event) = Some ''beta''"
    using resolveNamespace_exclusive [of session_event cold_hub "''s1''"]
    by (simp add: session_event_def lookupSession_def cold_hub_def beta_session_def)
  moreover have u: "fst (resolveNamespace cold_hub unscoped_event) = None"
    using resolveNamespace_exclusive [of unscoped_event cold_hub "''s1''"]
    by (simp add: unscoped_event_def)
  moreover have "fst (emit cold_hub unscoped_event) = []"
    using resolveNamespace_exclusive [of unscoped_event cold_hub "''s1''"] u by simp
  moreover have "map d_namespace (fst (emit cold_hub session_event)) = [''beta'', ''beta'']"
    by (simp add: resolveNamespace_def session_event_def cold_hub_def getSession_def
      cache_getSession_def refreshSession_def beta_session_def emit_def)
  ultimately show ?thesis by simp
qed

section \<open>Pages of the message ledger\<close>

lemma toDecrypted_id: "toDecrypted m = m"
  by (simp add: toDecrypted_def)

lemma map_toDecrypted: "map toDecrypted ms = ms"
  by (induction ms) (simp_all add: toDecrypted_id)

lemma fold_oldest_step:
  "fold oldest_step ms acc =
     (case acc of
        None \<Rightarrow> (if ms = [] then None else Some (Min (seq ` set ms)))
      | Some a \<Rightarrow> Some (Min (insert a (seq ` set ms))))"
proof (induction ms arbitrary: acc)
  case Nil
  then show ?case by (simp split: option.splits)
next
  case (Cons m ms)
  show ?case
  proof (cases acc)
    case None
    then show ?thesis by (simp add: Cons.IH)
  next
    case (Some a)
    have "fold oldest_step (m # ms) (Some a) = fold oldest_step ms (Some (min (seq m) a))"
      by (simp add: min_def)
    also have "\<dots> = Some (Min (insert (min (seq m) a) (seq ` set ms)))"
      by (simp only: Cons.IH option.case)
    also have "Min (insert (min (seq m) a) (seq ` set ms)) = Min (insert a (seq ` set (m # ms)))"
      by (cases "ms = []") (simp_all add: min.commute min.left_commute)
    finally show ?thesis using Some by simp
  qed
qed

lemma store_getMessages_length: "length (store_getMessages h i lim b) \<le> lim"
  by (simp add: store_getMessages_def Let_def)

lemma store_getMessages_subset:
  "set (store_getMessages h i lim b) \<subseteq> {m \<in> set (store_messages h i). before_ok b m}"
proof -
  have "set (store_getMessages h i lim b) \<subseteq> set (filter (before_ok b) (store_messages h i))"
    unfolding store_getMessages_def Let_def by (rule set_drop_subset)
  then show ?thesis by auto
qed

lemma store_getMessages_probe:
  "store_getMessages h i (Suc 0) b \<noteq> [] \<longleftrightarrow> (\<exists>m \<in> set (store_messages h i). before_ok b m)"
proof -
  let ?older = "filter (before_ok b) (store_messages h i)"
  have "store_getMessages h i (Suc 0) b \<noteq> [] \<longleftrightarrow> ?older \<noteq> []"
    by (cases "?older") (simp_all add: store_getMessages_def Let_def)
  also have "\<dots> \<longleftrightarrow> (\<exists>m \<in> set (store_messages h i). before_ok b m)"
    by (simp add: filter_empty_conv)
  finally show ?thesis .
qed

lemma getMessagesPage_messages:
  "messages (getMessagesPage h i lim b) = store_getMessages h i lim b"
  by (simp add: getMessagesPage_def Let_def map_toDecrypted)

lemma getMessagesPage_next:
  "nextBeforeSeq (page (getMessagesPage h i lim b)) =
     (if messages (getMessagesPage h i lim b) = [] then None
      else Some (Min (seq ` set (messages (getMessagesPage h i lim b)))))"
  by (simp add: getMessagesPage_def Let_def map_toDecrypted fold_oldest_step)

lemma getMessagesPage_hasMore:
  "hasMore (page (getMessagesPage h i lim b)) \<longleftrightarrow>
     (\<exists>n. nextBeforeSeq (page (getMessagesPage h i lim b)) = Some n \<and>
          (\<exists>m \<in> set (store_messages h i). seq m < n))"
proof -
  let ?next = "nextBeforeSeq (page (getMessagesPage h i lim b))"
  have "hasMore (page (getMessagesPage h i lim b)) \<longleftrightarrow>
          (?next \<noteq> None \<and> store_getMessages h i 1 ?next \<noteq> [])"
    by (simp add: getMessagesPage_def Let_def)
  also have "\<dots> \<longleftrightarrow> (\<exists>n. ?next = Some n \<and> (\<exists>m \<in> set (store_messages h i). seq m < n))"
    by (cases ?next) (simp_all add: store_getMessages_probe)
  finally show ?thesis .
qed

text \<open>
  C7. For every session id, limit and \<open>beforeSeq\<close>, the page holds at most \<open>limit\<close> messages,
  all of the session's ledger and all below \<open>beforeSeq\<close> when one is given; \<open>nextBeforeSeq\<close> is
  the least \<open>seq\<close> of the page, or null for an empty page; \<open>hasMore\<close> holds exactly when
  \<open>nextBeforeSeq\<close> is a number and the ledger has a message below it. An empty page has
  \<open>hasMore = false\<close> and \<open>nextBeforeSeq = null\<close>.
\<close>

theorem getMessagesPage_bounds:
  "length (messages (getMessagesPage h i lim b)) \<le> lim
 \<and> (\<forall>n. b = Some n \<longrightarrow> (\<forall>m \<in> set (messages (getMessagesPage h i lim b)). seq m < n))
 \<and> set (messages (getMessagesPage h i lim b)) \<subseteq> set (store_messages h i)
 \<and> nextBeforeSeq (page (getMessagesPage h i lim b)) =
      (if messages (getMessagesPage h i lim b) = [] then None
       else Some (Min (seq ` set (messages (getMessagesPage h i lim b)))))
 \<and> (hasMore (page (getMessagesPage h i lim b)) \<longleftrightarrow>
      (\<exists>n. nextBeforeSeq (page (getMessagesPage h i lim b)) = Some n \<and>
           (\<exists>m \<in> set (store_messages h i). seq m < n)))
 \<and> (messages (getMessagesPage h i lim b) = [] \<longrightarrow>
      \<not> hasMore (page (getMessagesPage h i lim b)) \<and>
      nextBeforeSeq (page (getMessagesPage h i lim b)) = None)
 \<and> pg_limit (page (getMessagesPage h i lim b)) = lim
 \<and> pg_beforeSeq (page (getMessagesPage h i lim b)) = b"
proof (intro conjI allI impI ballI)
  show "length (messages (getMessagesPage h i lim b)) \<le> lim"
    by (simp add: getMessagesPage_messages store_getMessages_length)
next
  fix n m assume "b = Some n" "m \<in> set (messages (getMessagesPage h i lim b))"
  then show "seq m < n"
    using store_getMessages_subset [of h i lim b] by (auto simp: getMessagesPage_messages)
next
  show "set (messages (getMessagesPage h i lim b)) \<subseteq> set (store_messages h i)"
    using store_getMessages_subset [of h i lim b] by (auto simp: getMessagesPage_messages)
next
  show "nextBeforeSeq (page (getMessagesPage h i lim b)) =
      (if messages (getMessagesPage h i lim b) = [] then None
       else Some (Min (seq ` set (messages (getMessagesPage h i lim b)))))"
    by (rule getMessagesPage_next)
next
  show "hasMore (page (getMessagesPage h i lim b)) \<longleftrightarrow>
      (\<exists>n. nextBeforeSeq (page (getMessagesPage h i lim b)) = Some n \<and>
           (\<exists>m \<in> set (store_messages h i). seq m < n))"
    by (rule getMessagesPage_hasMore)
next
  assume e: "messages (getMessagesPage h i lim b) = []"
  then show "nextBeforeSeq (page (getMessagesPage h i lim b)) = None"
    by (simp add: getMessagesPage_next)
  then show "\<not> hasMore (page (getMessagesPage h i lim b))"
    by (simp add: getMessagesPage_hasMore)
next
  show "pg_limit (page (getMessagesPage h i lim b)) = lim"
    by (simp add: getMessagesPage_def Let_def)
  show "pg_beforeSeq (page (getMessagesPage h i lim b)) = b"
    by (simp add: getMessagesPage_def Let_def)
qed


text \<open>A ledger of three messages with \<open>seq\<close> 1, 2, 3 for session \<open>s1\<close>.\<close>

definition note_msg :: "int \<Rightarrow> message" where
  "note_msg n = \<lparr>mid = ''m'', seq = n, localId = None, content = Opaque ''hi'', createdAt = 0\<rparr>"

definition ledger_hub :: hub where
  "ledger_hub =
     \<lparr>cache = Map.empty, store_sessions = Map.empty,
      store_messages = (\<lambda>i. if i = ''s1'' then [note_msg 1, note_msg 2, note_msg 3] else []),
      listeners = []\<rparr>"

theorem getMessagesPage_bounds_witness:
  "length (messages (getMessagesPage ledger_hub ''s1'' 2 (Some 3))) \<le> 2
 \<and> map seq (messages (getMessagesPage ledger_hub ''s1'' 2 (Some 3))) = [1, 2]
 \<and> nextBeforeSeq (page (getMessagesPage ledger_hub ''s1'' 2 (Some 3))) = Some 1
 \<and> hasMore (page (getMessagesPage ledger_hub ''s1'' 2 (Some 3))) = False
 \<and> hasMore (page (getMessagesPage ledger_hub ''s1'' 2 None)) = True"
proof -
  have m: "messages (getMessagesPage ledger_hub ''s1'' 2 (Some 3)) = [note_msg 1, note_msg 2]"
    by (simp add: getMessagesPage_messages store_getMessages_def ledger_hub_def note_msg_def)
  have l: "store_messages ledger_hub ''s1'' = [note_msg 1, note_msg 2, note_msg 3]"
    by (simp add: ledger_hub_def)
  have m2: "messages (getMessagesPage ledger_hub ''s1'' 2 None) = [note_msg 2, note_msg 3]"
    by (simp add: getMessagesPage_messages store_getMessages_def ledger_hub_def note_msg_def)
  note b = getMessagesPage_bounds [of ledger_hub "''s1''" 2 "Some 3"]
  note c = getMessagesPage_bounds [of ledger_hub "''s1''" 2 None]
  from b have "length (messages (getMessagesPage ledger_hub ''s1'' 2 (Some 3))) \<le> 2" by blast
  moreover from m have "map seq (messages (getMessagesPage ledger_hub ''s1'' 2 (Some 3))) = [1, 2]"
    by (simp add: note_msg_def)
  moreover from b have n: "nextBeforeSeq (page (getMessagesPage ledger_hub ''s1'' 2 (Some 3))) = Some 1"
    by (simp add: m note_msg_def)
  moreover from b n have "hasMore (page (getMessagesPage ledger_hub ''s1'' 2 (Some 3))) = False"
    by (simp add: l note_msg_def)
  moreover from c have "hasMore (page (getMessagesPage ledger_hub ''s1'' 2 None)) = True"
    by (simp add: m2 l note_msg_def)
  ultimately show ?thesis by blast
qed

lemma before_ok_trans:
  "before_ok b m \<Longrightarrow> seq x < seq m \<Longrightarrow> before_ok b x"
  by (cases b) simp_all

lemma page_next_decreases:
  assumes "hasMore (page (getMessagesPage h i lim b))"
  shows "length (filter (before_ok (nextBeforeSeq (page (getMessagesPage h i lim b)))) (store_messages h i))
          < length (filter (before_ok b) (store_messages h i))"
proof -
  let ?r = "getMessagesPage h i lim b" and ?L = "store_messages h i"
  from assms obtain n where n: "nextBeforeSeq (page ?r) = Some n"
    by (auto simp: getMessagesPage_hasMore)
  then have ne: "messages ?r \<noteq> []" and "n = Min (seq ` set (messages ?r))"
    by (auto simp: getMessagesPage_next split: if_splits)
  then have "n \<in> seq ` set (messages ?r)" by (simp add: Min_in)
  then obtain m where m: "m \<in> set (messages ?r)" "seq m = n" by auto
  then have mo: "m \<in> set (filter (before_ok b) ?L)"
    using store_getMessages_subset [of h i lim b] by (auto simp: getMessagesPage_messages)
  then have "before_ok b m" by simp
  then have "filter (before_ok (Some n)) ?L = filter (before_ok (Some n)) (filter (before_ok b) ?L)"
    using m(2) by (auto intro!: filter_cong dest: before_ok_trans)
  moreover have "length (filter (before_ok (Some n)) (filter (before_ok b) ?L))
                  < length (filter (before_ok b) ?L)"
    by (rule length_filter_less [OF mo]) (simp add: m)
  ultimately show ?thesis by (simp add: n)
qed

text \<open>
  The consumer's loop of the pagination round trip (spec section 8): start with
  \<open>beforeSeq = null\<close>, ask for a page, and while it says \<open>hasMore\<close> ask again with
  \<open>beforeSeq\<close> set to its \<open>nextBeforeSeq\<close>. The result lists the pages in the order they
  were fetched, newest first. Each further request has fewer ledger messages below its
  bound, so the loop ends.
\<close>

function followPages :: "hub \<Rightarrow> string \<Rightarrow> nat \<Rightarrow> int option \<Rightarrow> message list list" where
  "followPages h i lim b =
     (let r = getMessagesPage h i lim b
      in if hasMore (page r) then messages r # followPages h i lim (nextBeforeSeq (page r))
         else [messages r])"
  by pat_completeness auto
termination
  by (relation "measure (\<lambda>(h, i, lim, b). length (filter (before_ok b) (store_messages h i)))")
     (simp_all add: page_next_decreases)

declare followPages.simps [simp del]

lemma sorted_filter_split:
  assumes "sorted_wrt (\<lambda>x y. seq x < seq y) (ys @ z # zs)"
  shows "filter (\<lambda>m. seq m < seq z) (ys @ z # zs) = ys"
proof -
  from assms have "\<forall>y \<in> set ys. seq y < seq z" and "\<forall>x \<in> set zs. seq z < seq x"
    by (auto simp: sorted_wrt_append)
  then have "filter (\<lambda>m. seq m < seq z) ys = ys" and "filter (\<lambda>m. seq m < seq z) (z # zs) = []"
    by (auto simp: filter_empty_conv order.asym)
  then show ?thesis by simp
qed

lemma sorted_Min_head:
  assumes "sorted_wrt (\<lambda>x y. seq x < seq y) (z # zs)"
  shows "Min (seq ` set (z # zs)) = seq z"
proof -
  from assms have "\<And>b. b \<in> seq ` set zs \<Longrightarrow> seq z \<le> b" by auto
  then have "Min (insert (seq z) (seq ` set zs)) = seq z"
    by (intro Min_insert2) simp_all
  then show ?thesis by simp
qed

lemma followPages_concat:
  assumes "sorted_wrt (\<lambda>x y. seq x < seq y) (store_messages h i)" and "0 < lim"
  shows "concat (rev (followPages h i lim b)) = filter (before_ok b) (store_messages h i)"
  using assms
proof (induction h i lim b rule: followPages.induct)
  case (1 h i lim b)
  let ?L = "store_messages h i"
  let ?O = "filter (before_ok b) ?L"
  let ?k = "length ?O - lim"
  let ?r = "getMessagesPage h i lim b"
  have P: "messages ?r = drop ?k ?O"
    by (simp add: getMessagesPage_messages store_getMessages_def Let_def)
  have sO: "sorted_wrt (\<lambda>x y. seq x < seq y) ?O"
    using "1.prems"(1) by (rule sorted_wrt_filter)
  show ?case
  proof (cases "messages ?r")
    case Nil
    with P "1.prems"(2) have "?O = []" by (cases ?O) auto
    moreover from Nil have "\<not> hasMore (page ?r)"
      by (simp add: getMessagesPage_hasMore getMessagesPage_next)
    ultimately show ?thesis using Nil
      by (subst followPages.simps) (simp add: Let_def)
  next
    case (Cons z zs)
    with P have O: "?O = take ?k ?O @ z # zs"
      by (metis append_take_drop_id)
    have sP: "sorted_wrt (\<lambda>x y. seq x < seq y) (z # zs)"
      using sO O by (metis sorted_wrt_append)
    have n: "nextBeforeSeq (page ?r) = Some (seq z)"
      using sorted_Min_head [OF sP] Cons by (simp add: getMessagesPage_next)
    have zO: "z \<in> set ?O" by (subst O) simp
    then have zb: "before_ok b z" by simp
    have "filter (before_ok (Some (seq z))) ?L = filter (\<lambda>m. seq m < seq z) ?O"
      using zb by (auto intro!: filter_cong dest: before_ok_trans simp: comp_def)
    also have "\<dots> = take ?k ?O"
      using sorted_filter_split [of "take ?k ?O" z zs] sO O by simp
    finally have older: "filter (before_ok (Some (seq z))) ?L = take ?k ?O" .
    show ?thesis
    proof (cases "hasMore (page ?r)")
      case True
      have "concat (rev (followPages h i lim (Some (seq z)))) = take ?k ?O"
        using "1.IH" [OF refl True "1.prems"] unfolding n older .
      with True n Cons O show ?thesis
        by (subst followPages.simps) (simp add: Let_def)
    next
      case False
      with n have "\<not> (\<exists>m \<in> set ?L. seq m < seq z)"
        by (simp add: getMessagesPage_hasMore)
      then have "filter (before_ok (Some (seq z))) ?L = []"
        by (simp add: filter_empty_conv)
      with older have "take ?k ?O = []" by simp
      with O have "?O = z # zs" by (metis append_Nil)
      with False Cons show ?thesis
        by (subst followPages.simps) (simp add: Let_def)
    qed
  qed
qed


lemma mset_concat_rev: "mset (concat (rev xss)) = mset (concat xss)"
  by (induction xss) simp_all

text \<open>
  C8. On a ledger whose \<open>seq\<close> values increase strictly (the ledger's invariant) and with a
  page size of at least one, following \<open>nextBeforeSeq\<close> from \<open>beforeSeq = null\<close> until
  \<open>hasMore = false\<close> fetches every message exactly once: the pages, oldest page first, are
  the ledger itself; as multisets the fetched messages are the ledger's; no \<open>seq\<close> is
  fetched twice and none is missing.
\<close>

theorem pagination_round_trip:
  assumes "sorted_wrt (<) (map seq (store_messages h i))" and "0 < lim"
  shows "concat (rev (followPages h i lim None)) = store_messages h i
       \<and> mset (concat (followPages h i lim None)) = mset (store_messages h i)
       \<and> distinct (map seq (concat (followPages h i lim None)))
       \<and> set (map seq (concat (followPages h i lim None))) = set (map seq (store_messages h i))"
proof -
  let ?L = "store_messages h i" and ?pages = "followPages h i lim None"
  from assms(1) have s: "sorted_wrt (\<lambda>x y. seq x < seq y) ?L"
    by (simp add: sorted_wrt_map)
  from followPages_concat [OF s assms(2), of None]
  have c: "concat (rev ?pages) = ?L" by simp
  then have m: "mset (concat ?pages) = mset ?L"
    using mset_concat_rev [of ?pages] by simp
  then have ms: "mset (map seq (concat ?pages)) = mset (map seq ?L)"
    by simp
  from assms(1) have "distinct (map seq ?L)"
    by (simp add: strict_sorted_iff)
  with ms have d: "distinct (map seq (concat ?pages))"
    by (metis mset_eq_imp_distinct_iff)
  from ms have "set (map seq (concat ?pages)) = set (map seq ?L)"
    by (rule mset_eq_setD)
  with c m d show ?thesis by blast
qed

theorem pagination_round_trip_witness:
  "concat (rev (followPages ledger_hub ''s1'' 2 None)) = [note_msg 1, note_msg 2, note_msg 3]
 \<and> distinct (map seq (concat (followPages ledger_hub ''s1'' 2 None)))
 \<and> map (map seq) (followPages ledger_hub ''s1'' 2 None) = [[2, 3], [1]]"
proof -
  have l: "store_messages ledger_hub ''s1'' = [note_msg 1, note_msg 2, note_msg 3]"
    by (simp add: ledger_hub_def)
  have s: "sorted_wrt (<) (map seq (store_messages ledger_hub ''s1''))"
    by (simp add: l note_msg_def)
  have p: "0 < (2::nat)" by simp
  have e: "map (map seq) (followPages ledger_hub ''s1'' 2 None) = [[2, 3], [1]]"
    by (simp add: followPages.simps getMessagesPage_def store_getMessages_def ledger_hub_def
        note_msg_def Let_def toDecrypted_def)
  from pagination_round_trip [OF s p] l e show ?thesis by simp
qed

section \<open>What a spawn depends on\<close>

text \<open>An agent manager that can only start agents in \<open>/repo\<close>.\<close>

definition echo_manager :: agent_manager where
  "echo_manager opts = (if directory opts = ''/repo'' then SpawnSuccess ''xyz'' else SpawnError ''no such directory'')"

text \<open>
  C10. Two calls of \<open>SyncEngine.spawnSession\<close> that differ only in \<open>machineId\<close>,
  \<open>sessionType\<close> and \<open>worktreeName\<close> forward the same request to the agent manager, made of
  \<open>directory\<close>, \<open>agent\<close>, \<open>model\<close>, \<open>yolo\<close> and \<open>resumeSessionId\<close> only; so the outcome is
  the same whatever the agent manager does, and the spawn route answers the same for two
  bodies that differ only in \<open>sessionType\<close> and \<open>worktreeName\<close>, although it forwards both.
\<close>

theorem spawnSession_ignores_machine_and_worktree:
  "spawnSession_request m1 dir ag mo yo st1 wt1 rid = spawnSession_request m2 dir ag mo yo st2 wt2 rid
 \<and> spawnSession_request m1 dir ag mo yo st1 wt1 rid =
      \<lparr>directory = dir, agent = (case ag of None \<Rightarrow> Claude | Some a \<Rightarrow> a), model = mo,
       yolo = yo, resumeSessionId = rid\<rparr>
 \<and> spawnSession am m1 dir ag mo yo st1 wt1 rid = spawnSession am m2 dir ag mo yo st2 wt2 rid
 \<and> spawnRoute engine (body\<lparr>b_sessionType := st1, b_worktreeName := wt1\<rparr>) =
      spawnRoute engine (body\<lparr>b_sessionType := st2, b_worktreeName := wt2\<rparr>)"
  by (simp add: spawnSession_request_def spawnSession_def spawnRoute_def split: option.splits)

theorem spawnSession_ignores_machine_and_worktree_witness:
  "spawnSession echo_manager ''local'' ''/repo'' None None None (Some Worktree) (Some ''wt'') None
     = spawnSession echo_manager ''remote'' ''/repo'' None None None None None None
 \<and> spawnSession echo_manager ''local'' ''/repo'' None None None (Some Worktree) (Some ''wt'') None
     = SpawnSuccess ''xyz''"
proof -
  have "spawnSession echo_manager ''remote'' ''/repo'' None None None None None None
          = SpawnSuccess ''xyz''"
    by (simp add: spawnSession_def spawnSession_request_def echo_manager_def)
  with spawnSession_ignores_machine_and_worktree
         [of "''local''" "''/repo''" None None None "Some Worktree" "Some ''wt''" None
             "''remote''" None None echo_manager]
  show ?thesis by simp
qed

section \<open>The wait loop\<close>






















definition silent_timeline :: timeline where
  "silent_timeline = \<lparr>world_at = (\<lambda>_. cold_hub), skew = (\<lambda>_. 0)\<rparr>"








section \<open>Outcomes of a resume\<close>

lemma resolveSessionAccess_ok_id:
  "fst (resolveSessionAccess h i ns) = AccessOk a s \<Longrightarrow> a = i"
  by (simp add: resolveSessionAccess_lookup split: option.splits if_splits)

text \<open>The resume, by the access result, the session's liveness and its resume request.\<close>

lemma resumeSession_denied:
  "fst (resolveSessionAccess h i ns) = AccessFail r \<Longrightarrow>
   resumeSession env h i ns =
     (ResumeError (if r = AccessDenied then ''Session access denied'' else ''Session not found'')
        (if r = AccessDenied then access_denied else session_not_found), [])"
  by (simp add: resumeSession_def)

lemma resumeSession_active:
  "fst (resolveSessionAccess h i ns) = AccessOk a s \<Longrightarrow> active s \<Longrightarrow>
   resumeSession env h i ns = (ResumeSuccess a, [])"
  by (simp add: resumeSession_def)

lemma resumeSession_unavailable:
  "fst (resolveSessionAccess h i ns) = AccessOk a s \<Longrightarrow> \<not> active s \<Longrightarrow>
   resume_request s = None \<Longrightarrow>
   error_code (fst (resumeSession env h i ns)) = Some resume_unavailable
   \<and> snd (resumeSession env h i ns) = []"
  by (auto simp: resumeSession_def resume_request_def split: option.splits if_splits)

lemma resumeSession_spawn_error:
  "fst (resolveSessionAccess h i ns) = AccessOk a s \<Longrightarrow> \<not> active s \<Longrightarrow>
   resume_request s = Some opts \<Longrightarrow> agent_spawn env opts = SpawnError msg \<Longrightarrow>
   resumeSession env h i ns = (ResumeError msg resume_failed, [SpawnCall opts])"
  by (auto simp: resumeSession_def resume_request_def split: option.splits if_splits)

lemma resumeSession_spawned:
  "fst (resolveSessionAccess h i ns) = AccessOk a s \<Longrightarrow> \<not> active s \<Longrightarrow>
   resume_request s = Some opts \<Longrightarrow> agent_spawn env opts = SpawnSuccess newId \<Longrightarrow>
   resumeSession env h i ns =
     (if \<not> became_active (waitForSessionActive (wait_timeline env) newId None (wait_start env))
      then (ResumeError ''Session failed to become active'' resume_failed,
            [SpawnCall opts, WaitCall newId])
      else if newId \<noteq> a then
        (case merge env a newId ns of
           Some e \<Rightarrow>
             (ResumeError (case e of ErrorObject msg \<Rightarrow> msg
                           | NonError \<Rightarrow> ''Failed to merge resumed session'') resume_failed,
              [SpawnCall opts, WaitCall newId, MergeCall a newId ns])
         | None \<Rightarrow> (ResumeSuccess newId, [SpawnCall opts, WaitCall newId, MergeCall a newId ns]))
      else (ResumeSuccess newId, [SpawnCall opts, WaitCall newId]))"
  by (auto simp: resumeSession_def resume_request_def Let_def split: option.splits if_splits)

lemma resume_request_None:
  "resume_request s = None \<longleftrightarrow>
     (case metadata s of
        None \<Rightarrow> True
      | Some md \<Rightarrow> \<not> is_string (path md) \<or> \<not> truthy (resume_token md))"
  by (simp add: resume_request_def split: option.splits)


text \<open>
  C3. \<open>resumeSession\<close> returns success in exactly two situations. (i) Access resolves and
  the session is already active: the id returned is the requested one and no call is made
  on the agent manager. (ii) Access resolves, the session is inactive, the request built
  from its metadata was answered by the agent manager with a new session id, and that
  session was found active within the wait: the id returned is the new one, and when it
  differs from the requested id the old id was merged into it within the namespace, the
  merge having completed, before returning.
\<close>

theorem resumeSession_success_cases:
  "fst (resumeSession env h i ns) = ResumeSuccess rid \<longleftrightarrow>
     (\<exists>s. fst (resolveSessionAccess h i ns) = AccessOk i s \<and>
        (active s \<and> rid = i \<and> snd (resumeSession env h i ns) = []
       \<or> \<not> active s \<and>
          (\<exists>opts. resume_request s = Some opts
             \<and> agent_spawn env opts = SpawnSuccess rid
             \<and> became_active (waitForSessionActive (wait_timeline env) rid None (wait_start env))
             \<and> (rid \<noteq> i \<longrightarrow> merge env i rid ns = None)
             \<and> snd (resumeSession env h i ns) =
                 SpawnCall opts # WaitCall rid # (if rid \<noteq> i then [MergeCall i rid ns] else []))))"
proof (cases "fst (resolveSessionAccess h i ns)")
  case (AccessFail r)
  then show ?thesis by (simp add: resumeSession_denied)
next
  case (AccessOk a s)
  then have a: "a = i" by (rule resolveSessionAccess_ok_id)
  note ok = AccessOk [unfolded a]
  show ?thesis
  proof (cases "active s")
    case True
    with ok show ?thesis by (auto simp: resumeSession_active)
  next
    case inactive: False
    show ?thesis
    proof (cases "resume_request s")
      case None
      with resumeSession_unavailable [OF ok inactive None, of env] ok inactive show ?thesis
        by (cases "fst (resumeSession env h i ns)") auto
    next
      case (Some opts)
      show ?thesis
      proof (cases "agent_spawn env opts")
        case (SpawnError msg)
        with ok inactive Some show ?thesis
          by (simp add: resumeSession_spawn_error [OF ok inactive Some SpawnError])
      next
        case (SpawnSuccess newId)
        with ok inactive Some show ?thesis
          by (auto simp: resumeSession_spawned [OF ok inactive Some SpawnSuccess]
              split: option.splits)
      qed
    qed
  qed
qed

lemma resumeSession_codes_by_request:
  "(error_code (fst (resumeSession env h i ns)) = Some session_not_found \<longleftrightarrow>
      fst (resolveSessionAccess h i ns) = AccessFail NotFound)
 \<and> (error_code (fst (resumeSession env h i ns)) = Some access_denied \<longleftrightarrow>
      fst (resolveSessionAccess h i ns) = AccessFail AccessDenied)
 \<and> (error_code (fst (resumeSession env h i ns)) = Some resume_unavailable \<longleftrightarrow>
      (\<exists>s. fst (resolveSessionAccess h i ns) = AccessOk i s \<and> \<not> active s \<and>
         (case metadata s of
            None \<Rightarrow> True
          | Some md \<Rightarrow> \<not> is_string (path md) \<or> \<not> truthy (resume_token md))))
 \<and> (error_code (fst (resumeSession env h i ns)) = Some resume_failed \<longleftrightarrow>
      (\<exists>s opts. fst (resolveSessionAccess h i ns) = AccessOk i s \<and> \<not> active s \<and>
         resume_request s = Some opts \<and>
         ((\<exists>msg. agent_spawn env opts = SpawnError msg)
        \<or> (\<exists>newId. agent_spawn env opts = SpawnSuccess newId \<and>
              (\<not> became_active
                    (waitForSessionActive (wait_timeline env) newId None (wait_start env))
             \<or> newId \<noteq> i \<and> merge env i newId ns \<noteq> None)))))
 \<and> error_code (fst (resumeSession env h i ns)) \<noteq> Some no_machine_online"
proof (cases "fst (resolveSessionAccess h i ns)")
  case (AccessFail r)
  then show ?thesis by (cases r) (simp_all add: resumeSession_denied)
next
  case (AccessOk a s)
  then have a: "a = i" by (rule resolveSessionAccess_ok_id)
  note ok = AccessOk [unfolded a]
  show ?thesis
  proof (cases "active s")
    case True
    with ok show ?thesis by (simp add: resumeSession_active)
  next
    case inactive: False
    show ?thesis
    proof (cases "resume_request s")
      case None
      with resumeSession_unavailable [OF ok inactive None, of env] ok inactive
        resume_request_None [of s]
      show ?thesis by simp
    next
      case (Some opts)
      then have avail: "\<not> (case metadata s of None \<Rightarrow> True
                  | Some md \<Rightarrow> \<not> is_string (path md) \<or> \<not> truthy (resume_token md))"
        using resume_request_None [of s] by simp
      show ?thesis
      proof (cases "agent_spawn env opts")
        case (SpawnError msg)
        with ok inactive Some avail show ?thesis
          by (simp add: resumeSession_spawn_error [OF ok inactive Some SpawnError])
      next
        case (SpawnSuccess newId)
        with ok inactive Some avail show ?thesis
          by (auto simp: resumeSession_spawned [OF ok inactive Some SpawnSuccess]
              split: option.splits)
      qed
    qed
  qed
qed

text \<open>The token and the request of a resume, by the fields of the metadata.\<close>

lemma resume_token_fields:
  "resume_token md =
     (if flavor md = Some ''codex'' then codexSessionId md
      else if flavor md = Some ''gemini'' then geminiSessionId md
      else if flavor md = Some ''opencode'' then opencodeSessionId md
      else claudeSessionId md)"
  by (simp add: resume_token_def flavor_of_def)

lemma resume_request_fields:
  "resume_request s = Some opts \<longleftrightarrow>
     (\<exists>md. metadata s = Some md \<and> is_string (path md)
        \<and> opts = \<lparr>directory = str_of (path md),
                   agent = (if flavor md = Some ''codex'' then Codex
                            else if flavor md = Some ''gemini'' then Gemini
                            else if flavor md = Some ''opencode'' then Opencode
                            else Claude),
                   model = None, yolo = None,
                   resumeSessionId =
                     (if flavor md = Some ''codex'' then codexSessionId md
                      else if flavor md = Some ''gemini'' then geminiSessionId md
                      else if flavor md = Some ''opencode'' then opencodeSessionId md
                      else claudeSessionId md)\<rparr>
        \<and> truthy (resumeSessionId opts))"
  by (cases "metadata s") (auto simp: resume_request_def resume_token_fields flavor_of_def)

text \<open>
  C4. The error codes of \<open>resumeSession\<close>, each under its condition and no other:
  \<open>session_not_found\<close> and \<open>access_denied\<close> exactly when access resolution fails with
  \<open>not-found\<close> and \<open>access-denied\<close>; \<open>resume_unavailable\<close> exactly when the session is
  inactive and its metadata is missing, has no string \<open>path\<close>, or has no token in the field
  of its flavor (\<open>codexSessionId\<close> for \<open>codex\<close>, \<open>geminiSessionId\<close> for \<open>gemini\<close>,
  \<open>opencodeSessionId\<close> for \<open>opencode\<close>, \<open>claudeSessionId\<close> for every other flavor);
  \<open>resume_failed\<close> exactly when the request for that path, flavor and token is answered
  with an error, or the spawned session is not found active within the wait, or the merge
  of distinct ids throws. The code \<open>no_machine_online\<close> is never produced.
\<close>

theorem resumeSession_error_codes:
  "(error_code (fst (resumeSession env h i ns)) = Some session_not_found \<longleftrightarrow>
      fst (resolveSessionAccess h i ns) = AccessFail NotFound)
 \<and> (error_code (fst (resumeSession env h i ns)) = Some access_denied \<longleftrightarrow>
      fst (resolveSessionAccess h i ns) = AccessFail AccessDenied)
 \<and> (error_code (fst (resumeSession env h i ns)) = Some resume_unavailable \<longleftrightarrow>
      (\<exists>s. fst (resolveSessionAccess h i ns) = AccessOk i s \<and> \<not> active s \<and>
         (case metadata s of
            None \<Rightarrow> True
          | Some md \<Rightarrow>
              \<not> is_string (path md)
            \<or> \<not> truthy (if flavor md = Some ''codex'' then codexSessionId md
                          else if flavor md = Some ''gemini'' then geminiSessionId md
                          else if flavor md = Some ''opencode'' then opencodeSessionId md
                          else claudeSessionId md))))
 \<and> (error_code (fst (resumeSession env h i ns)) = Some resume_failed \<longleftrightarrow>
      (\<exists>s md opts. fst (resolveSessionAccess h i ns) = AccessOk i s \<and> \<not> active s
         \<and> metadata s = Some md \<and> is_string (path md)
         \<and> opts = \<lparr>directory = str_of (path md),
                    agent = (if flavor md = Some ''codex'' then Codex
                             else if flavor md = Some ''gemini'' then Gemini
                             else if flavor md = Some ''opencode'' then Opencode
                             else Claude),
                    model = None, yolo = None,
                    resumeSessionId =
                      (if flavor md = Some ''codex'' then codexSessionId md
                       else if flavor md = Some ''gemini'' then geminiSessionId md
                       else if flavor md = Some ''opencode'' then opencodeSessionId md
                       else claudeSessionId md)\<rparr>
         \<and> truthy (resumeSessionId opts)
         \<and> ((\<exists>msg. agent_spawn env opts = SpawnError msg)
          \<or> (\<exists>newId. agent_spawn env opts = SpawnSuccess newId \<and>
                (\<not> became_active
                      (waitForSessionActive (wait_timeline env) newId None (wait_start env))
               \<or> newId \<noteq> i \<and> merge env i newId ns \<noteq> None)))))
 \<and> error_code (fst (resumeSession env h i ns)) \<noteq> Some no_machine_online"
proof -
  note old = resumeSession_codes_by_request [of env h i ns, unfolded resume_token_fields]
  have f: "(\<exists>s opts. fst (resolveSessionAccess h i ns) = AccessOk i s \<and> \<not> active s \<and>
         resume_request s = Some opts \<and>
         ((\<exists>msg. agent_spawn env opts = SpawnError msg)
        \<or> (\<exists>newId. agent_spawn env opts = SpawnSuccess newId \<and>
              (\<not> became_active
                    (waitForSessionActive (wait_timeline env) newId None (wait_start env))
             \<or> newId \<noteq> i \<and> merge env i newId ns \<noteq> None))))
     \<longleftrightarrow>
      (\<exists>s md opts. fst (resolveSessionAccess h i ns) = AccessOk i s \<and> \<not> active s
         \<and> metadata s = Some md \<and> is_string (path md)
         \<and> opts = \<lparr>directory = str_of (path md),
                    agent = (if flavor md = Some ''codex'' then Codex
                             else if flavor md = Some ''gemini'' then Gemini
                             else if flavor md = Some ''opencode'' then Opencode
                             else Claude),
                    model = None, yolo = None,
                    resumeSessionId =
                      (if flavor md = Some ''codex'' then codexSessionId md
                       else if flavor md = Some ''gemini'' then geminiSessionId md
                       else if flavor md = Some ''opencode'' then opencodeSessionId md
                       else claudeSessionId md)\<rparr>
         \<and> truthy (resumeSessionId opts)
         \<and> ((\<exists>msg. agent_spawn env opts = SpawnError msg)
          \<or> (\<exists>newId. agent_spawn env opts = SpawnSuccess newId \<and>
                (\<not> became_active
                      (waitForSessionActive (wait_timeline env) newId None (wait_start env))
               \<or> newId \<noteq> i \<and> merge env i newId ns \<noteq> None))))"
    unfolding resume_request_fields by blast
  from old show ?thesis unfolding f by blast
qed

text \<open>
  The resume scenario of the spec: session \<open>abc\<close> of namespace \<open>ns\<close> is inactive, with
  \<open>metadata.path = /repo\<close> and \<open>claudeSessionId = tok1\<close>; the agent manager answers with
  the new id \<open>xyz\<close>, which is active as soon as it is polled; the merge completes.
\<close>

definition abc_session :: session where
  "abc_session =
     \<lparr>sid = ''abc'', namespace = ''ns'', active = False, metadata = Some repo_metadata,
      metadataVersion = 1\<rparr>"

definition resume_hub :: hub where
  "resume_hub =
     \<lparr>cache = [''abc'' \<mapsto> abc_session], store_sessions = [''abc'' \<mapsto> abc_session],
      store_messages = (\<lambda>_. []), listeners = []\<rparr>"

definition live_timeline :: timeline where
  "live_timeline =
     \<lparr>world_at = (\<lambda>_. resume_hub\<lparr>cache := (cache resume_hub)
                       (''xyz'' \<mapsto> abc_session\<lparr>sid := ''xyz'', active := True\<rparr>)\<rparr>),
      skew = (\<lambda>_. 0)\<rparr>"

definition resume_demo :: resume_env where
  "resume_demo =
     \<lparr>agent_spawn = echo_manager, merge = (\<lambda>_ _ _. None), wait_timeline = live_timeline,
      wait_start = 0\<rparr>"

definition resume_offline :: resume_env where
  "resume_offline =
     \<lparr>agent_spawn = (\<lambda>_. SpawnError ''spawn failed''), merge = (\<lambda>_ _ _. None),
      wait_timeline = silent_timeline, wait_start = 0\<rparr>"

lemma resume_hub_access:
  "fst (resolveSessionAccess resume_hub ''abc'' ''ns'') = AccessOk ''abc'' abc_session"
  by (simp add: resolveSessionAccess_lookup lookupSession_def resume_hub_def abc_session_def)

lemma abc_request:
  "resume_request abc_session =
     Some \<lparr>directory = ''/repo'', agent = Claude, model = None, yolo = None,
           resumeSessionId = Some ''tok1''\<rparr>"
  by (simp add: resume_request_def abc_session_def repo_metadata_def resume_token_def
      flavor_of_def)

theorem resumeSession_success_cases_witness:
  "fst (resumeSession resume_demo resume_hub ''abc'' ''ns'') = ResumeSuccess ''xyz''
 \<and> snd (resumeSession resume_demo resume_hub ''abc'' ''ns'') =
      [SpawnCall \<lparr>directory = ''/repo'', agent = Claude, model = None, yolo = None,
                  resumeSessionId = Some ''tok1''\<rparr>,
       WaitCall ''xyz'', MergeCall ''abc'' ''xyz'' ''ns'']
 \<and> resumeSession resume_demo warm_hub ''s1'' ''alpha'' = (ResumeSuccess ''s1'', [])"
proof -
  have w: "became_active (waitForSessionActive live_timeline ''xyz'' None 0)"
    by (simp add: waitForSessionActive_def waitLoop.simps observed_active_def live_timeline_def
        getSession_def cache_getSession_def)
  have i: "\<not> active abc_session"
    by (simp add: abc_session_def)
  have sp: "agent_spawn resume_demo
              \<lparr>directory = ''/repo'', agent = Claude, model = None, yolo = None,
               resumeSessionId = Some ''tok1''\<rparr> = SpawnSuccess ''xyz''"
    by (simp add: resume_demo_def echo_manager_def)
  have e: "wait_timeline resume_demo = live_timeline" "wait_start resume_demo = 0"
    "merge resume_demo ''abc'' ''xyz'' ''ns'' = None"
    by (simp_all add: resume_demo_def)
  have f: "fst (resumeSession resume_demo resume_hub ''abc'' ''ns'') = ResumeSuccess ''xyz''"
    using resumeSession_spawned [OF resume_hub_access i abc_request sp] w e
    by simp
  from f resumeSession_success_cases [of resume_demo resume_hub "''abc''" "''ns''" "''xyz''"]
  have "snd (resumeSession resume_demo resume_hub ''abc'' ''ns'') =
      [SpawnCall \<lparr>directory = ''/repo'', agent = Claude, model = None, yolo = None,
                  resumeSessionId = Some ''tok1''\<rparr>,
       WaitCall ''xyz'', MergeCall ''abc'' ''xyz'' ''ns'']"
    by (auto simp: resume_hub_access abc_request)
  moreover have a: "fst (resolveSessionAccess warm_hub ''s1'' ''alpha'') = AccessOk ''s1'' warm_session"
    by (simp add: resolveSessionAccess_lookup lookupSession_def warm_hub_def warm_session_def)
  have "fst (resumeSession resume_demo warm_hub ''s1'' ''alpha'') = ResumeSuccess ''s1''
      \<and> snd (resumeSession resume_demo warm_hub ''s1'' ''alpha'') = []"
    using resumeSession_success_cases [of resume_demo warm_hub "''s1''" "''alpha''" "''s1''"] a
    by (auto simp: warm_session_def resumeSession_active)
  then have "resumeSession resume_demo warm_hub ''s1'' ''alpha'' = (ResumeSuccess ''s1'', [])"
    by (metis prod.collapse)
  ultimately show ?thesis using f by blast
qed

text \<open>
  Two inactive sessions of flavor \<open>codex\<close>: one with a claude token only, one with a codex
  token only.
\<close>

definition codex_metadata :: metadata where
  "codex_metadata =
     \<lparr>path = JStr ''/repo'', flavor = Some ''codex'', claudeSessionId = Some ''tok1'',
      codexSessionId = None, geminiSessionId = None, opencodeSessionId = None\<rparr>"

definition codex_session :: session where
  "codex_session =
     \<lparr>sid = ''cdx'', namespace = ''ns'', active = False, metadata = Some codex_metadata,
      metadataVersion = 1\<rparr>"

definition codex_ready_session :: session where
  "codex_ready_session =
     \<lparr>sid = ''cdy'', namespace = ''ns'', active = False,
      metadata = Some (codex_metadata\<lparr>claudeSessionId := None, codexSessionId := Some ''ctok''\<rparr>),
      metadataVersion = 1\<rparr>"

definition codex_hub :: hub where
  "codex_hub =
     \<lparr>cache = [''cdx'' \<mapsto> codex_session, ''cdy'' \<mapsto> codex_ready_session],
      store_sessions = Map.empty, store_messages = (\<lambda>_. []), listeners = []\<rparr>"

theorem resumeSession_error_codes_witness:
  "error_code (fst (resumeSession resume_demo cold_hub ''zz'' ''alpha'')) = Some session_not_found
 \<and> error_code (fst (resumeSession resume_demo cold_hub ''s1'' ''alpha'')) = Some access_denied
 \<and> error_code (fst (resumeSession resume_demo cold_hub ''s1'' ''beta'')) = Some resume_unavailable
 \<and> error_code (fst (resumeSession resume_offline resume_hub ''abc'' ''ns'')) = Some resume_failed
 \<and> error_code (fst (resumeSession resume_demo codex_hub ''cdx'' ''ns'')) = Some resume_unavailable
 \<and> error_code (fst (resumeSession resume_offline codex_hub ''cdy'' ''ns'')) = Some resume_failed"
proof -
  have 1: "fst (resolveSessionAccess cold_hub ''zz'' ''alpha'') = AccessFail NotFound"
    by (simp add: resolveSessionAccess_lookup lookupSession_def cold_hub_def)
  have 2: "fst (resolveSessionAccess cold_hub ''s1'' ''alpha'') = AccessFail AccessDenied"
    by (simp add: resolveSessionAccess_lookup lookupSession_def cold_hub_def beta_session_def)
  have 3: "fst (resolveSessionAccess cold_hub ''s1'' ''beta'') = AccessOk ''s1'' beta_session"
    by (simp add: resolveSessionAccess_lookup lookupSession_def cold_hub_def beta_session_def)
  have 4: "agent_spawn resume_offline opts = SpawnError ''spawn failed''" for opts
    by (simp add: resume_offline_def)
  have 5: "fst (resolveSessionAccess codex_hub ''cdx'' ''ns'') = AccessOk ''cdx'' codex_session"
    by (simp add: resolveSessionAccess_lookup lookupSession_def codex_hub_def codex_session_def)
  have 6: "fst (resolveSessionAccess codex_hub ''cdy'' ''ns'') = AccessOk ''cdy'' codex_ready_session"
    by (simp add: resolveSessionAccess_lookup lookupSession_def codex_hub_def
        codex_ready_session_def)
  from resumeSession_error_codes [of resume_demo cold_hub "''zz''" "''alpha''"] 1
  have "error_code (fst (resumeSession resume_demo cold_hub ''zz'' ''alpha'')) = Some session_not_found"
    by simp
  moreover from resumeSession_error_codes [of resume_demo cold_hub "''s1''" "''alpha''"] 2
  have "error_code (fst (resumeSession resume_demo cold_hub ''s1'' ''alpha'')) = Some access_denied"
    by simp
  moreover from resumeSession_error_codes [of resume_demo cold_hub "''s1''" "''beta''"] 3
  have "error_code (fst (resumeSession resume_demo cold_hub ''s1'' ''beta'')) = Some resume_unavailable"
    by (simp add: beta_session_def)
  moreover from resumeSession_error_codes [of resume_offline resume_hub "''abc''" "''ns''"]
    resume_hub_access 4
  have "error_code (fst (resumeSession resume_offline resume_hub ''abc'' ''ns'')) = Some resume_failed"
    by (simp add: abc_session_def repo_metadata_def)
  moreover from resumeSession_error_codes [of resume_demo codex_hub "''cdx''" "''ns''"] 5
  have "error_code (fst (resumeSession resume_demo codex_hub ''cdx'' ''ns'')) = Some resume_unavailable"
    by (simp add: codex_session_def codex_metadata_def)
  moreover from resumeSession_error_codes [of resume_offline codex_hub "''cdy''" "''ns''"] 6 4
  have "error_code (fst (resumeSession resume_offline codex_hub ''cdy'' ''ns'')) = Some resume_failed"
    by (simp add: codex_ready_session_def codex_metadata_def)
  ultimately show ?thesis by blast
qed

section \<open>The ledger append and the agent push\<close>

lemma fold_max_bounds:
  "a \<le> fold (\<lambda>m a. max a (seq m)) ms a \<and> (\<forall>x \<in> set ms. seq x \<le> fold (\<lambda>m a. max a (seq m)) ms a)"
proof (induction ms arbitrary: a)
  case Nil
  then show ?case by simp
next
  case (Cons m ms)
  from Cons.IH [of "max a (seq m)"] show ?case by auto
qed

lemma next_seq_above: "x \<in> set ledger \<Longrightarrow> seq x < next_seq ledger"
  using fold_max_bounds [of 0 ledger] by (auto simp: next_seq_def)

lemma next_seq_positive: "0 < next_seq ledger"
  using fold_max_bounds [of 0 ledger] by (simp add: next_seq_def)

lemma run_listeners_quiet:
  "\<forall>l \<in> set ls. l u = None \<Longrightarrow> run_listeners ls u = None"
  by (induction ls) simp_all

text \<open>The message a send stores.\<close>

definition stored_message :: "hub \<Rightarrow> string \<Rightarrow> send_payload \<Rightarrow> string \<Rightarrow> int \<Rightarrow> message" where
  "stored_message h sessionId payload fresh now =
     \<lparr>mid = fresh, seq = next_seq (store_messages h sessionId), localId = p_localId payload,
      content = UserText (p_text payload) (p_attachments payload)
                  (case p_sentFrom payload of None \<Rightarrow> Webapp | Some f \<Rightarrow> f),
      createdAt = now\<rparr>"

definition pushed_update :: "string \<Rightarrow> message \<Rightarrow> update_push" where
  "pushed_update sessionId msg =
     \<lparr>up_id = mid msg, up_seq = seq msg, up_createdAt = createdAt msg, up_sid = sessionId,
      up_message = msg\<rparr>"

lemma sendMessage_unfold:
  "sendMessage h agents i payload fresh now =
     (let msg = stored_message h i payload fresh now;
          h1 = h\<lparr>store_messages := (store_messages h)(i := store_messages h i @ [msg])\<rparr>
      in case sendToSession agents i ''update'' (pushed_update i msg) of
           Some e \<Rightarrow> \<lparr>promise = Rejected e, published = [], delivered = [], hub_after = h1\<rparr>
         | None \<Rightarrow>
             \<lparr>promise = Resolved, published = [message_received i msg],
              delivered = fst (emit h1 (message_received i msg)),
              hub_after = snd (emit h1 (message_received i msg))\<rparr>)"
  by (simp add: sendMessage_def store_addMessage_def stored_message_def pushed_update_def
      Let_def split: option.splits prod.splits)

lemma emit_store_messages: "store_messages (snd (emit h ev)) = store_messages h"
  by (auto simp: emit_def resolveNamespace_def getSession_def refreshSession_def
      cache_getSession_def Let_def split: option.splits prod.splits if_splits)

lemma sendMessage_ledger:
  "store_messages (hub_after (sendMessage h agents i payload fresh now)) =
     (store_messages h)(i := store_messages h i @ [stored_message h i payload fresh now])"
  by (simp add: sendMessage_unfold Let_def emit_store_messages split: option.splits)


lemma resolveNamespace_listeners: "listeners (snd (resolveNamespace h ev)) = listeners h"
  by (auto simp: resolveNamespace_def getSession_def refreshSession_def cache_getSession_def
      split: option.splits prod.splits)

lemma emit_message_received:
  assumes "lookupSession h i = Some s"
      and "h1 = h\<lparr>store_messages := f\<rparr>"
  shows "fst (emit h1 (message_received i msg)) =
           map (\<lambda>l. \<lparr>d_listener = l, d_namespace = namespace s,
                       d_event = message_received i msg\<rparr>) (listeners h)"
proof -
  have "lookupSession h1 i = Some s"
    using assms by (simp add: lookupSession_def split: option.splits)
  then have "fst (resolveNamespace h1 (message_received i msg)) = Some (namespace s)"
    using resolveNamespace_session [of "message_received i msg" i h1]
    by (simp add: message_received_def)
  then show ?thesis
    by (simp add: emit_deliveries resolveNamespace_listeners assms(2))
qed

text \<open>
  A live agent for session \<open>s1\<close> whose \<open>update\<close> listener throws, one whose listener
  returns, and a payload.
\<close>

definition throwing_agents :: agent_sessions where
  "throwing_agents =
     [''s1'' \<mapsto> \<lparr>inbound = (\<lambda>ev. if ev = ''update'' then [\<lambda>_. Some (ErrorObject ''boom'')] else [])\<rparr>]"

definition quiet_agents :: agent_sessions where
  "quiet_agents =
     [''s1'' \<mapsto> \<lparr>inbound = (\<lambda>ev. if ev = ''update'' then [\<lambda>_. None] else [])\<rparr>]"

definition hello_payload :: send_payload where
  "hello_payload = \<lparr>p_text = ''hello'', p_localId = Some ''l1'', p_attachments = None, p_sentFrom = None\<rparr>"

text \<open>
  With a live agent whose \<open>update\<close> listener throws, the send is rejected with what the
  listener threw and no event is published; the ledger has the message all the same.
\<close>

theorem sendMessage_push_throws_counterexample:
  "promise (sendMessage warm_hub throwing_agents ''s1'' hello_payload ''m1'' 7)
     = Rejected (ErrorObject ''boom'')
 \<and> published (sendMessage warm_hub throwing_agents ''s1'' hello_payload ''m1'' 7) = []
 \<and> delivered (sendMessage warm_hub throwing_agents ''s1'' hello_payload ''m1'' 7) = []
 \<and> map mid (store_messages (hub_after (sendMessage warm_hub throwing_agents ''s1'' hello_payload ''m1'' 7)) ''s1'')
     = [''m1'']"
  by (simp add: sendMessage_unfold sendToSession_def throwing_agents_def Let_def
      stored_message_def warm_hub_def)

text \<open>
  C9 (as the code has it). Every call of \<open>sendMessage\<close> appends the message to the
  session's ledger, with a \<open>seq\<close> above all earlier ones, and leaves the other ledgers
  alone, whatever the agent push does. When no live agent is attached to the session, or
  the \<open>update\<close> listeners of the attached agent's transport return normally, the call
  resolves and a \<open>message-received\<close> event carrying the stored message (id, seq, localId,
  content, createdAt) is published, and reaches every subscriber under the session's
  namespace. When a listener throws, the call is rejected with what was thrown and no event
  is published.
\<close>

theorem sendMessage_appends_and_publishes:
  "store_messages (hub_after (sendMessage h agents i payload fresh now)) i
     = store_messages h i @ [stored_message h i payload fresh now]
 \<and> (\<forall>j. j \<noteq> i \<longrightarrow>
       store_messages (hub_after (sendMessage h agents i payload fresh now)) j = store_messages h j)
 \<and> (\<forall>x \<in> set (store_messages h i). seq x < seq (stored_message h i payload fresh now))
 \<and> ((agents i = None \<or>
      (\<exists>tr. agents i = Some tr \<and> (\<forall>l \<in> set (inbound tr ''update''). \<forall>u. l u = None))) \<longrightarrow>
       promise (sendMessage h agents i payload fresh now) = Resolved
     \<and> published (sendMessage h agents i payload fresh now)
         = [message_received i (stored_message h i payload fresh now)]
     \<and> (\<forall>s. lookupSession h i = Some s \<longrightarrow>
           delivered (sendMessage h agents i payload fresh now)
             = map (\<lambda>l. \<lparr>d_listener = l, d_namespace = namespace s,
                         d_event = message_received i (stored_message h i payload fresh now)\<rparr>)
                 (listeners h)))
 \<and> (\<forall>e. sendToSession agents i ''update''
            (pushed_update i (stored_message h i payload fresh now)) = Some e \<longrightarrow>
       promise (sendMessage h agents i payload fresh now) = Rejected e
     \<and> published (sendMessage h agents i payload fresh now) = [])"
proof (intro conjI allI impI ballI)
  let ?msg = "stored_message h i payload fresh now"
  let ?out = "sendMessage h agents i payload fresh now"
  show "store_messages (hub_after ?out) i = store_messages h i @ [?msg]"
    by (simp add: sendMessage_ledger)
  show "store_messages (hub_after ?out) j = store_messages h j" if "j \<noteq> i" for j
    using that by (simp add: sendMessage_ledger)
  show "seq x < seq ?msg" if "x \<in> set (store_messages h i)" for x
    using next_seq_above [OF that] by (simp add: stored_message_def)
  show "promise ?out = Rejected e" "published ?out = []"
    if "sendToSession agents i ''update'' (pushed_update i ?msg) = Some e" for e
    using that by (simp_all add: sendMessage_unfold Let_def)
  assume quiet: "agents i = None \<or>
      (\<exists>tr. agents i = Some tr \<and> (\<forall>l \<in> set (inbound tr ''update''). \<forall>u. l u = None))"
  then have push: "sendToSession agents i ''update'' (pushed_update i ?msg) = None"
    by (auto simp: sendToSession_def intro!: run_listeners_quiet)
  then show "promise ?out = Resolved" "published ?out = [message_received i ?msg]"
    by (simp_all add: sendMessage_unfold Let_def)
  show "delivered ?out = map (\<lambda>l. \<lparr>d_listener = l, d_namespace = namespace s,
                         d_event = message_received i ?msg\<rparr>) (listeners h)"
    if "lookupSession h i = Some s" for s
    using push emit_message_received [OF that refl]
    by (simp add: sendMessage_unfold Let_def)
qed

theorem sendMessage_appends_and_publishes_witness:
  "promise (sendMessage warm_hub Map.empty ''s1'' hello_payload ''m1'' 7) = Resolved
 \<and> published (sendMessage warm_hub Map.empty ''s1'' hello_payload ''m1'' 7)
     = [message_received ''s1'' (stored_message warm_hub ''s1'' hello_payload ''m1'' 7)]
 \<and> map d_namespace (delivered (sendMessage warm_hub Map.empty ''s1'' hello_payload ''m1'' 7)) = [''alpha'']
 \<and> promise (sendMessage warm_hub quiet_agents ''s1'' hello_payload ''m1'' 7) = Resolved
 \<and> map seq (store_messages (hub_after (sendMessage warm_hub quiet_agents ''s1'' hello_payload ''m1'' 7)) ''s1'') = [1]"
proof -
  have l: "lookupSession warm_hub ''s1'' = Some warm_session"
    by (simp add: lookupSession_def warm_hub_def)
  have q: "\<exists>tr. quiet_agents ''s1'' = Some tr \<and> (\<forall>l \<in> set (inbound tr ''update''). \<forall>u. l u = None)"
    by (simp add: quiet_agents_def)
  have e: "store_messages warm_hub ''s1'' = []" "listeners warm_hub = [0]"
    by (simp_all add: warm_hub_def)
  note a = sendMessage_appends_and_publishes [of warm_hub Map.empty "''s1''" hello_payload "''m1''" 7]
  note b = sendMessage_appends_and_publishes [of warm_hub quiet_agents "''s1''" hello_payload "''m1''" 7]
  from a have "promise (sendMessage warm_hub Map.empty ''s1'' hello_payload ''m1'' 7) = Resolved"
    by simp
  moreover from a have "published (sendMessage warm_hub Map.empty ''s1'' hello_payload ''m1'' 7)
     = [message_received ''s1'' (stored_message warm_hub ''s1'' hello_payload ''m1'' 7)]"
    by simp
  moreover from a l have "map d_namespace (delivered (sendMessage warm_hub Map.empty ''s1'' hello_payload ''m1'' 7)) = [''alpha'']"
    by (simp add: e warm_session_def)
  moreover from b q have "promise (sendMessage warm_hub quiet_agents ''s1'' hello_payload ''m1'' 7) = Resolved"
    by blast
  moreover from b have "map seq (store_messages (hub_after (sendMessage warm_hub quiet_agents ''s1'' hello_payload ''m1'' 7)) ''s1'') = [1]"
    by (simp add: e stored_message_def next_seq_def)
  ultimately show ?thesis by blast
qed

end
